theory Spec2Isabelle
  imports Complex_Main "HOL-Library.Multiset" "HOL-Library.Sublist"
begin

section \<open>The JavaScript values the application computes with\<close>

text \<open>
  The application (\<^verbatim>\<open>src/App.tsx\<close>) stores prices and exchange rates as JavaScript
  numbers. A number is modelled as \<open>NaN\<close>, one of the two infinities, or a finite value.
  A finite value is a rational: \<open>Fin q\<close> stands for the binary64 number nearest to \<open>q\<close>.
  The sum the code computes with \<^verbatim>\<open>+\<close> is the binary64 sum (\<open>binary64_add\<close> below):
  both operands and the result are rounded to binary64. Printing, parsing, the product
  and the quotient work on \<open>q\<close> itself, and the sign of zero is not modelled.
\<close>

datatype number = NaN | PosInfinity | NegInfinity | Fin rat

fun js_neg :: "number \<Rightarrow> number" where
  "js_neg NaN = NaN"
| "js_neg PosInfinity = NegInfinity"
| "js_neg NegInfinity = PosInfinity"
| "js_neg (Fin a) = Fin (- a)"

text \<open>
  The sum of two numbers, with the exact sum of two finite values. It gives the sum where
  an operand is not finite, and the difference \<open>js_sub\<close>.
\<close>

fun js_add :: "number \<Rightarrow> number \<Rightarrow> number" where
  "js_add (Fin a) (Fin b) = Fin (a + b)"
| "js_add NaN y = NaN"
| "js_add x NaN = NaN"
| "js_add PosInfinity NegInfinity = NaN"
| "js_add NegInfinity PosInfinity = NaN"
| "js_add PosInfinity y = PosInfinity"
| "js_add NegInfinity y = NegInfinity"
| "js_add (Fin a) y = y"

text \<open>
  The operator \<^verbatim>\<open>-\<close> on numbers, with the exact difference of two finite values.
  The code takes differences in the comparator of the sort only, which uses their sign,
  and the binary64 difference of two binary64 numbers has the sign of the exact one.
\<close>

definition js_sub :: "number \<Rightarrow> number \<Rightarrow> number" where
  "js_sub x y = js_add x (js_neg y)"

text \<open>The operator \<^verbatim>\<open>*\<close> on numbers.\<close>

fun js_mul :: "number \<Rightarrow> number \<Rightarrow> number" where
  "js_mul (Fin a) (Fin b) = Fin (a * b)"
| "js_mul NaN y = NaN"
| "js_mul x NaN = NaN"
| "js_mul (Fin a) y = (if a = 0 then NaN else if 0 < a then y else js_neg y)"
| "js_mul x (Fin b) = (if b = 0 then NaN else if 0 < b then x else js_neg x)"
| "js_mul x y = (if x = y then PosInfinity else NegInfinity)"

text \<open>
  The operator \<^verbatim>\<open>/\<close> on numbers. A finite value divided by zero is an infinity
  (or \<open>NaN\<close> for \<open>0 / 0\<close>); it is not an error in JavaScript. The zero divisor is
  taken as positive zero.
\<close>

fun js_div :: "number \<Rightarrow> number \<Rightarrow> number" where
  "js_div (Fin a) (Fin b) =
     (if b = 0 then (if a = 0 then NaN else if 0 < a then PosInfinity else NegInfinity)
      else Fin (a / b))"
| "js_div NaN y = NaN"
| "js_div x NaN = NaN"
| "js_div (Fin a) y = Fin 0"
| "js_div x (Fin b) = (if 0 \<le> b then x else js_neg x)"
| "js_div x y = NaN"

text \<open>
  Truthiness of the result of a property lookup \<^verbatim>\<open>rates[c]\<close>: \<open>None\<close> is
  \<^verbatim>\<open>undefined\<close> (the key is absent); \<^verbatim>\<open>undefined\<close>, \<open>NaN\<close> and zero are falsy.
\<close>

fun ToBoolean :: "number option \<Rightarrow> bool" where
  "ToBoolean None = False"
| "ToBoolean (Some NaN) = False"
| "ToBoolean (Some (Fin a)) = (a \<noteq> 0)"
| "ToBoolean (Some x) = True"

text \<open>The comparisons \<^verbatim>\<open>v > 0\<close> and \<^verbatim>\<open>x <= y\<close>; every comparison with \<open>NaN\<close> is false.\<close>

fun js_positive :: "number \<Rightarrow> bool" where
  "js_positive PosInfinity = True"
| "js_positive (Fin a) = (0 < a)"
| "js_positive x = False"

fun js_le :: "number \<Rightarrow> number \<Rightarrow> bool" where
  "js_le (Fin a) (Fin b) = (a \<le> b)"
| "js_le NaN y = False"
| "js_le x NaN = False"
| "js_le NegInfinity y = True"
| "js_le x PosInfinity = True"
| "js_le x y = False"

subsection \<open>Binary64 addition\<close>

text \<open>The number of binary digits of \<open>n\<close>.\<close>

fun bitLength :: "nat \<Rightarrow> nat" where
  "bitLength n = (if n = 0 then 0 else Suc (bitLength (n div 2)))"

declare bitLength.simps [simp del]

definition pow2 :: "int \<Rightarrow> rat" where
  "pow2 e = (if 0 \<le> e then 2 ^ nat e else 1 / 2 ^ nat (- e))"

text \<open>For \<open>x > 0\<close>, the exponent \<open>e\<close> with \<open>2^e \<le> x < 2^(e+1)\<close>.\<close>

definition floorLog2 :: "rat \<Rightarrow> int" where
  "floorLog2 x =
     (if 1 \<le> x then int (bitLength (nat \<lfloor>x\<rfloor>)) - 1
      else - int (bitLength (nat (\<lceil>1 / x\<rceil> - 1))))"

text \<open>The integer nearest to \<open>y\<close>, the even one of two.\<close>

definition roundHalfEven :: "rat \<Rightarrow> int" where
  "roundHalfEven y =
     (let f = \<lfloor>y\<rfloor>; d = y - of_int f
      in if d < 1 / 2 then f else if 1 / 2 < d then f + 1 else if even f then f else f + 1)"

text \<open>
  The binary64 number nearest to \<open>x\<close>, a tie going to the even significand: 53
  significant binary digits for an exponent of at least \<open>-1022\<close>, multiples of
  \<open>2^(-1074)\<close> below that, and an infinity where the rounded value reaches \<open>2^1024\<close>.
\<close>

definition toBinary64 :: "rat \<Rightarrow> number" where
  "toBinary64 x =
     (if x = 0 then Fin 0
      else let e = max (floorLog2 \<bar>x\<bar>) (- 1022);
               q = pow2 (e - 52);
               y = of_int (roundHalfEven (x / q)) * q
           in if 2 ^ 1024 \<le> y then PosInfinity
              else if y \<le> - (2 ^ 1024) then NegInfinity
              else Fin y)"

fun binary64 :: "number \<Rightarrow> number" where
  "binary64 (Fin a) = toBinary64 a"
| "binary64 x = x"

text \<open>
  The operator \<^verbatim>\<open>+\<close> on numbers: the binary64 number nearest to the exact sum of the
  two binary64 operands.
\<close>

definition binary64_add :: "number \<Rightarrow> number \<Rightarrow> number" where
  "binary64_add x y =
     (case (binary64 x, binary64 y) of
        (Fin a, Fin b) \<Rightarrow> toBinary64 (a + b)
      | (x', y') \<Rightarrow> js_add x' y')"

subsection \<open>Number.prototype.toFixed\<close>

fun digits_of :: "nat \<Rightarrow> string" where
  "digits_of n =
     (if n < 10 then [''0123456789'' ! n]
      else digits_of (n div 10) @ [''0123456789'' ! (n mod 10)])"

declare digits_of.simps [simp del]

definition stripZeros :: "string \<Rightarrow> string" where
  "stripZeros s = rev (dropWhile (\<lambda>c. c = CHR ''0'') (rev s))"

text \<open>
  \<^verbatim>\<open>Number::toString\<close> of a finite value \<open>x \<ge> 10^21\<close>: exponent notation. JavaScript
  prints the shortest digit string that reads back as the same binary64 value; the model
  prints \<open>x\<close> rounded to 17 significant digits, without trailing zeros.
\<close>

definition toStringLarge :: "rat \<Rightarrow> string" where
  "toStringLarge x =
     (let n = length (digits_of (nat \<lfloor>x\<rfloor>));
          s = nat \<lfloor>x / 10 ^ (n - 17) + 1 / 2\<rfloor>;
          n' = (if s = 10 ^ 17 then n + 1 else n);
          ds = stripZeros (take 17 (digits_of s))
      in (if length ds \<le> 1 then take 1 (digits_of s) else take 1 ds @ ''.'' @ drop 1 ds)
         @ ''e+'' @ digits_of (n' - 1))"

text \<open>
  \<^verbatim>\<open>x.toFixed(f)\<close>, following the language definition: a value that is not finite
  is printed by name; below \<open>10^21\<close> the integer \<open>n\<close> closest to \<open>x * 10^f\<close> is taken
  (the larger one of two), printed in decimal, padded with zeros to \<open>f + 1\<close> digits,
  and the point is put before the last \<open>f\<close> digits.
\<close>

definition toFixedUnsigned :: "nat \<Rightarrow> rat \<Rightarrow> string" where
  "toFixedUnsigned f x =
     (if 10 ^ 21 \<le> x then toStringLarge x
      else let n = nat \<lfloor>x * 10 ^ f + 1 / 2\<rfloor>;
               m = digits_of n;
               m' = replicate (f + 1 - length m) (CHR ''0'') @ m;
               k = length m'
           in if f = 0 then m else take (k - f) m' @ ''.'' @ drop (k - f) m')"

fun toFixed :: "nat \<Rightarrow> number \<Rightarrow> string" where
  "toFixed f NaN = ''NaN''"
| "toFixed f PosInfinity = ''Infinity''"
| "toFixed f NegInfinity = ''-Infinity''"
| "toFixed f (Fin x) =
     (if x < 0 then ''-'' @ toFixedUnsigned f (- x) else toFixedUnsigned f x)"

subsection \<open>parseFloat\<close>

definition isWhiteSpace :: "char \<Rightarrow> bool" where
  "isWhiteSpace c = (c \<in> set [CHR '' '', CHR 0x09, CHR 0x0A, CHR 0x0B, CHR 0x0C, CHR 0x0D])"

definition isDecimalDigit :: "char \<Rightarrow> bool" where
  "isDecimalDigit c = (c \<in> set ''0123456789'')"

definition decimalValue :: "string \<Rightarrow> nat" where
  "decimalValue s = foldl (\<lambda>n c. 10 * n + (of_char c - 48)) 0 s"

definition pow10 :: "int \<Rightarrow> rat" where
  "pow10 e = (if 0 \<le> e then 10 ^ nat e else 1 / 10 ^ nat (- e))"

text \<open>
  The exponent part at the start of \<open>s\<close>: \<^verbatim>\<open>e\<close> or \<^verbatim>\<open>E\<close>, an optional sign and at
  least one digit. Where there is none the exponent is 0.
\<close>

definition parseExponent :: "string \<Rightarrow> int" where
  "parseExponent s =
     (case s of
        [] \<Rightarrow> 0
      | c # r \<Rightarrow>
          if c = CHR ''e'' \<or> c = CHR ''E'' then
            (case r of
               [] \<Rightarrow> 0
             | d # t \<Rightarrow>
                 if d = CHR ''-'' then - int (decimalValue (takeWhile isDecimalDigit t))
                 else if d = CHR ''+'' then int (decimalValue (takeWhile isDecimalDigit t))
                 else int (decimalValue (takeWhile isDecimalDigit r)))
          else 0)"

text \<open>
  The longest prefix of \<open>s\<close> that is an unsigned decimal literal: \<^verbatim>\<open>Infinity\<close>, or
  digits with an optional fraction and exponent, or a fraction starting with the point.
  With neither integer nor fraction digits there is no literal and the result is \<open>NaN\<close>.
\<close>

definition parseUnsigned :: "string \<Rightarrow> number" where
  "parseUnsigned s =
     (if take 8 s = ''Infinity'' then PosInfinity
      else let ip = takeWhile isDecimalDigit s;
               r1 = dropWhile isDecimalDigit s;
               (fp, r2) = (case r1 of
                             [] \<Rightarrow> ([], r1)
                           | c # t \<Rightarrow>
                               if c = CHR ''.''
                               then (takeWhile isDecimalDigit t, dropWhile isDecimalDigit t)
                               else ([], r1))
           in if ip = [] \<and> fp = [] then NaN
              else Fin ((of_nat (decimalValue ip)
                          + of_nat (decimalValue fp) / 10 ^ length fp)
                        * pow10 (parseExponent r2)))"

text \<open>
  \<^verbatim>\<open>parseFloat(s)\<close>: leading white space is skipped (the ASCII white space and line
  terminators; \<open>char\<close> is a byte), then a sign and an unsigned literal are read, and
  whatever follows is ignored.
\<close>

definition parseFloat :: "string \<Rightarrow> number" where
  "parseFloat s =
     (case dropWhile isWhiteSpace s of
        [] \<Rightarrow> NaN
      | c # r \<Rightarrow>
          if c = CHR ''-'' then js_neg (parseUnsigned r)
          else if c = CHR ''+'' then parseUnsigned r
          else parseUnsigned (c # r))"

subsection \<open>Array.prototype.sort and Array.prototype.splice\<close>

text \<open>
  \<^verbatim>\<open>xs.sort(comparefn)\<close> is a stable sort: \<open>x\<close> is moved behind \<open>y\<close> only where
  \<open>comparefn(x, y) > 0\<close>, and a comparison that yields \<open>NaN\<close> counts as 0. For a
  consistent comparator every stable sort returns the same array, so the sort is
  modelled as the stable insertion sort. For a comparator that is not consistent
  (a \<open>NaN\<close> among the compared prices) the language leaves the order to the
  implementation, and the model picks one such order.
\<close>

fun sortInsert :: "('a \<Rightarrow> 'a \<Rightarrow> number) \<Rightarrow> 'a \<Rightarrow> 'a list \<Rightarrow> 'a list" where
  "sortInsert comparefn x [] = [x]"
| "sortInsert comparefn x (y # ys) =
     (if js_positive (comparefn x y) then y # sortInsert comparefn x ys else x # y # ys)"

definition array_sort :: "('a \<Rightarrow> 'a \<Rightarrow> number) \<Rightarrow> 'a list \<Rightarrow> 'a list" where
  "array_sort comparefn xs = foldr (sortInsert comparefn) xs []"

text \<open>
  The start position \<^verbatim>\<open>splice\<close> computes from its first argument: a negative index
  counts from the end, and the result is clamped to \<open>0 .. length\<close>.
\<close>

definition spliceStart :: "int \<Rightarrow> nat \<Rightarrow> nat" where
  "spliceStart start len =
     (if start < 0 then nat (max (int len + start) 0) else min (nat start) len)"

section \<open>The data model\<close>

text \<open>
  The interfaces \<^verbatim>\<open>WishlistItem\<close>, \<^verbatim>\<open>Person\<close>, \<^verbatim>\<open>ExchangeRates\<close> and
  \<^verbatim>\<open>EditingItem\<close>. The fields \<^verbatim>\<open>id\<close> and \<^verbatim>\<open>name\<close> occur in several interfaces
  and carry the interface as a prefix here, as do the fields of \<^verbatim>\<open>EditingItem\<close>
  and of the form state \<^verbatim>\<open>newItem\<close>. An optional field is an \<open>option\<close>; for
  \<^verbatim>\<open>parentId\<close> both \<^verbatim>\<open>null\<close> and \<^verbatim>\<open>undefined\<close> are \<open>None\<close> (the code only
  compares the field with a string).
\<close>

record WishlistItem =
  item_id :: string
  item_name :: string
  price :: number
  currency :: string
  link :: string
  parentId :: "string option"
  isRequired :: "bool option"

record Person =
  person_id :: string
  person_name :: string
  items :: "WishlistItem list"

type_synonym ExchangeRates = "string \<Rightarrow> number option"

record EditingItem =
  edit_id :: string
  edit_name :: string
  edit_price :: string
  edit_currency :: string
  edit_link :: string
  edit_parentId :: "string option"
  edit_isRequired :: "bool option"
  tempCurrency :: string

record NewItem =
  new_name :: string
  new_price :: string
  new_currency :: string
  new_link :: string
  new_parentId :: "string option"
  new_isRequired :: bool

datatype SortDirection = asc | desc

text \<open>
  The state of the component \<^verbatim>\<open>App\<close>: one field for each \<^verbatim>\<open>useState\<close> that the
  functions below read or write (\<^verbatim>\<open>newPersonName\<close> and \<^verbatim>\<open>darkMode\<close> are neither).
  A handler takes the state of the render it was created in and returns the state
  after its \<^verbatim>\<open>set...\<close> calls.
\<close>

record AppState =
  people :: "Person list"
  showNewItemForm :: "string option"
  editingItemId :: "string option"
  editingItem :: "EditingItem option"
  newItem :: NewItem
  displayCurrency :: string
  rates :: ExchangeRates
  sortDirection :: SortDirection

text \<open>
  The argument of \<^verbatim>\<open>handleDragEnd\<close>: \<^verbatim>\<open>result.source.index\<close> and, unless the
  drop was cancelled, \<^verbatim>\<open>result.destination.index\<close>.
\<close>

record DropResult =
  source_index :: int
  destination_index :: "int option"

section \<open>Currency conversion\<close>

datatype fx_error = FxError

text \<open>
  Modelled from the spec: the call \<^verbatim>\<open>fx(price).from(fromCurrency).to(toCurrency)\<close> of
  the library \<^verbatim>\<open>money\<close>, which is imported by \<^verbatim>\<open>App.tsx\<close> and is not part of the
  sources. The specification gives the conversion as
  \<^verbatim>\<open>amount * (rate[to] / rate[from])\<close> over the rate table, which the application
  hands to the library together with the state \<^verbatim>\<open>rates\<close>. The call is inside
  \<^verbatim>\<open>try\<close>; it fails here where a rate is absent from the table.
\<close>

definition fx :: "ExchangeRates \<Rightarrow> number \<Rightarrow> string \<Rightarrow> string \<Rightarrow> fx_error + number" where
  "fx rateTable amount fromCurrency toCurrency =
     (case (rateTable fromCurrency, rateTable toCurrency) of
        (Some rateFrom, Some rateTo) \<Rightarrow> Inr (js_mul amount (js_div rateTo rateFrom))
      | _ \<Rightarrow> Inl FxError)"

definition convertPrice :: "AppState \<Rightarrow> number \<Rightarrow> string \<Rightarrow> string \<Rightarrow> string" where
  "convertPrice st price' fromCurrency toCurrency =
     (if \<not> ToBoolean (rates st fromCurrency) \<or> \<not> ToBoolean (rates st toCurrency)
      then toFixed 2 price'
      else case fx (rates st) price' fromCurrency toCurrency of
             Inr converted \<Rightarrow> toFixed 2 converted
           | Inl error \<Rightarrow> toFixed 2 price')"

section \<open>The operations on the wishlists\<close>

definition saveEditedItem :: "AppState \<Rightarrow> string \<Rightarrow> AppState" where
  "saveEditedItem st personId =
     (case (editingItem st, editingItemId st) of
        (Some editing, Some editingId) \<Rightarrow>
          if editingId = [] then st
          else st\<lparr>people :=
                    map (\<lambda>person.
                          if person_id person = personId then
                            person\<lparr>items :=
                              map (\<lambda>item.
                                    if item_id item = editingId then
                                      \<lparr>item_id = edit_id editing,
                                       item_name = edit_name editing,
                                       price = parseFloat (edit_price editing),
                                       currency = tempCurrency editing,
                                       link = edit_link editing,
                                       parentId = edit_parentId editing,
                                       isRequired = edit_isRequired editing\<rparr>
                                    else item)
                                  (items person)\<rparr>
                          else person)
                        (people st),
                  editingItemId := None,
                  editingItem := None\<rparr>
      | _ \<Rightarrow> st)"

definition calculateGroupTotal :: "AppState \<Rightarrow> WishlistItem list \<Rightarrow> string \<Rightarrow> number" where
  "calculateGroupTotal st items' parentId' =
     (case find (\<lambda>item. item_id item = parentId') items' of
        None \<Rightarrow> Fin 0
      | Some parent \<Rightarrow>
          let total = parseFloat (convertPrice st (price parent) (currency parent)
                                    (displayCurrency st));
              children = filter (\<lambda>item. parentId item = Some parentId'
                                          \<and> isRequired item = Some True) items'
          in foldl (\<lambda>total child.
                      binary64_add total
                        (parseFloat (convertPrice st (price child) (currency child)
                                       (displayCurrency st))))
                   total children)"

text \<open>
  \<^verbatim>\<open>addItem\<close> calls \<^verbatim>\<open>crypto.randomUUID()\<close> once for every person it changes; the
  identifiers come from the argument \<open>randomUUID\<close>, indexed by the person's position.
\<close>

definition addItem :: "AppState \<Rightarrow> (nat \<Rightarrow> string) \<Rightarrow> string \<Rightarrow> AppState" where
  "addItem st randomUUID personId =
     st\<lparr>people :=
          map (\<lambda>(i, person).
                if person_id person = personId then
                  person\<lparr>items := items person @
                    [\<lparr>item_id = randomUUID i,
                      item_name = new_name (newItem st),
                      price = parseFloat (new_price (newItem st)),
                      currency = new_currency (newItem st),
                      link = new_link (newItem st),
                      parentId = new_parentId (newItem st),
                      isRequired = Some (new_isRequired (newItem st))\<rparr>]\<rparr>
                else person)
              (enumerate 0 (people st)),
        newItem := \<lparr>new_name = '''', new_price = '''', new_currency = ''USD'',
                     new_link = '''', new_parentId = None, new_isRequired = False\<rparr>,
        showNewItemForm := None\<rparr>"

definition removeItem :: "AppState \<Rightarrow> string \<Rightarrow> string \<Rightarrow> AppState" where
  "removeItem st personId itemId =
     st\<lparr>people :=
          map (\<lambda>person.
                if person_id person = personId then
                  person\<lparr>items :=
                    filter (\<lambda>item.
                             if item_id item = itemId then False
                             else if parentId item = Some itemId then False
                             else True)
                           (items person)\<rparr>
                else person)
              (people st)\<rparr>"

text \<open>
  The two \<^verbatim>\<open>splice\<close> calls of \<^verbatim>\<open>handleDragEnd\<close>: the element at the source index
  is taken out and put back at the destination index. Where the source index is not
  below the length nothing is taken out and the code inserts \<^verbatim>\<open>undefined\<close>, which is
  no \<^verbatim>\<open>WishlistItem\<close>: the result is \<open>None\<close> then.
\<close>

definition reorderItems :: "int \<Rightarrow> int \<Rightarrow> 'a list \<Rightarrow> 'a list option" where
  "reorderItems sourceIndex destinationIndex xs =
     (let s = spliceStart sourceIndex (length xs);
          removed = take 1 (drop s xs);
          rest = take s xs @ drop (s + 1) xs
      in case removed of
           [] \<Rightarrow> None
         | reorderedItem # _ \<Rightarrow>
             let d = spliceStart destinationIndex (length rest)
             in Some (take d rest @ [reorderedItem] @ drop d rest))"

definition handleDragEnd :: "AppState \<Rightarrow> DropResult \<Rightarrow> string \<Rightarrow> AppState option" where
  "handleDragEnd st result personId =
     (case destination_index result of
        None \<Rightarrow> Some st
      | Some destinationIndex \<Rightarrow>
          map_option (\<lambda>updatedPeople. st\<lparr>people := updatedPeople\<rparr>)
            (those (map (\<lambda>person.
                          if person_id person = personId then
                            map_option (\<lambda>items'. person\<lparr>items := items'\<rparr>)
                              (reorderItems (source_index result) destinationIndex
                                 (items person))
                          else Some person)
                        (people st))))"

definition sortItemsByPrice :: "AppState \<Rightarrow> string \<Rightarrow> AppState" where
  "sortItemsByPrice st personId =
     st\<lparr>people :=
          map (\<lambda>person.
                if person_id person = personId then
                  person\<lparr>items :=
                    array_sort
                      (\<lambda>a b.
                         let priceA = parseFloat (convertPrice st (price a) (currency a)
                                                    (displayCurrency st));
                             priceB = parseFloat (convertPrice st (price b) (currency b)
                                                    (displayCurrency st))
                         in if sortDirection st = asc then js_sub priceA priceB
                            else js_sub priceB priceA)
                      (items person)\<rparr>
                else person)
              (people st),
        sortDirection := (if sortDirection st = asc then desc else asc)\<rparr>"

section \<open>Notions used to state the properties\<close>

text \<open>
  The price of an item in the display currency, as every reader of it computes it:
  \<^verbatim>\<open>parseFloat(convertPrice(item.price, item.currency, displayCurrency))\<close>.
\<close>

definition convertedPrice :: "AppState \<Rightarrow> WishlistItem \<Rightarrow> number" where
  "convertedPrice st item =
     parseFloat (convertPrice st (price item) (currency item) (displayCurrency st))"

text \<open>
  A finite value rounded to two decimals, a tie away from zero: what \<^verbatim>\<open>toFixed(2)\<close>
  prints.
\<close>

definition roundTo2 :: "rat \<Rightarrow> rat" where
  "roundTo2 x = (if 0 \<le> x then of_int \<lfloor>x * 100 + 1 / 2\<rfloor> / 100
                 else - (of_int \<lfloor>- x * 100 + 1 / 2\<rfloor> / 100))"

text \<open>A list of items is in ascending (descending) order of converted price.\<close>

definition ascending :: "AppState \<Rightarrow> WishlistItem list \<Rightarrow> bool" where
  "ascending st xs = sorted_wrt (\<lambda>a b. js_le (convertedPrice st a) (convertedPrice st b)) xs"

definition descending :: "AppState \<Rightarrow> WishlistItem list \<Rightarrow> bool" where
  "descending st xs = sorted_wrt (\<lambda>a b. js_le (convertedPrice st b) (convertedPrice st a)) xs"

text \<open>
  The people other than \<open>personId\<close> are the same in \<open>ps'\<close> as in \<open>ps\<close>, position by
  position, and without a person \<open>personId\<close> the two lists are the same.
\<close>

definition othersUnchanged :: "string \<Rightarrow> Person list \<Rightarrow> Person list \<Rightarrow> bool" where
  "othersUnchanged personId ps ps' =
     (length ps' = length ps
      \<and> (\<forall>i < length ps. person_id (ps ! i) \<noteq> personId \<longrightarrow> ps' ! i = ps ! i)
      \<and> ((\<forall>p \<in> set ps. person_id p \<noteq> personId) \<longrightarrow> ps' = ps))"

section \<open>Example states\<close>

text \<open>The state of the first render: the initial values of the \<^verbatim>\<open>useState\<close> calls.\<close>

definition initialState :: AppState where
  "initialState =
     \<lparr>people = [], showNewItemForm = None, editingItemId = None, editingItem = None,
      newItem = \<lparr>new_name = '''', new_price = '''', new_currency = ''USD'',
                  new_link = '''', new_parentId = None, new_isRequired = False\<rparr>,
      displayCurrency = ''SEK'', rates = Map.empty, sortDirection = asc\<rparr>"

text \<open>
  The scenario of the specification: Alice has item A (100 USD), item B (20 USD, required
  with A) and item C (5 USD, depends on A, not required); the display currency is USD and
  the rate table is \<open>{USD: 1}\<close>. Bob is a second person, with one item.
\<close>

definition itemA :: WishlistItem where
  "itemA = \<lparr>item_id = ''A'', item_name = ''Bicycle'', price = Fin 100, currency = ''USD'',
             link = '''', parentId = None, isRequired = Some False\<rparr>"

definition itemB :: WishlistItem where
  "itemB = \<lparr>item_id = ''B'', item_name = ''Helmet'', price = Fin 20, currency = ''USD'',
             link = '''', parentId = Some ''A'', isRequired = Some True\<rparr>"

definition itemC :: WishlistItem where
  "itemC = \<lparr>item_id = ''C'', item_name = ''Bell'', price = Fin 5, currency = ''USD'',
             link = '''', parentId = Some ''A'', isRequired = Some False\<rparr>"

definition itemD :: WishlistItem where
  "itemD = \<lparr>item_id = ''D'', item_name = ''Book'', price = Fin 12, currency = ''USD'',
             link = '''', parentId = None, isRequired = Some False\<rparr>"

definition alice :: Person where
  "alice = \<lparr>person_id = ''alice'', person_name = ''Alice'', items = [itemA, itemB, itemC]\<rparr>"

definition bob :: Person where
  "bob = \<lparr>person_id = ''bob'', person_name = ''Bob'', items = [itemD]\<rparr>"

definition aliceState :: AppState where
  "aliceState = initialState\<lparr>people := [alice, bob], displayCurrency := ''USD'',
                              rates := [''USD'' \<mapsto> Fin 1]\<rparr>"

text \<open>
  The display currency is EUR, at the rate 0.5 of the USD: Alice's items are shown at
  half their prices.
\<close>

definition euroState :: AppState where
  "euroState = aliceState\<lparr>displayCurrency := ''EUR'',
                          rates := [''USD'' \<mapsto> Fin 1, ''EUR'' \<mapsto> Fin (1 / 2)]\<rparr>"

text \<open>A parent and a required child of 0.004 USD each.\<close>

definition tinyParent :: WishlistItem where
  "tinyParent = \<lparr>item_id = ''P'', item_name = ''Sticker'', price = Fin (4 / 1000),
                  currency = ''USD'', link = '''', parentId = None, isRequired = Some False\<rparr>"

definition tinyChild :: WishlistItem where
  "tinyChild = \<lparr>item_id = ''Q'', item_name = ''Glue'', price = Fin (4 / 1000),
                 currency = ''USD'', link = '''', parentId = Some ''P'', isRequired = Some True\<rparr>"

text \<open>The rate table holds the rate 0 for SEK.\<close>

definition zeroRateState :: AppState where
  "zeroRateState = aliceState\<lparr>rates := [''USD'' \<mapsto> Fin 1, ''SEK'' \<mapsto> Fin 0]\<rparr>"

text \<open>The rate table holds an infinite rate for XAU.\<close>

definition infiniteRateState :: AppState where
  "infiniteRateState = aliceState\<lparr>rates := [''USD'' \<mapsto> Fin 1, ''XAU'' \<mapsto> PosInfinity]\<rparr>"

text \<open>Alice's item B is being edited, and the price field holds a text that is no number.\<close>

definition editingState :: AppState where
  "editingState =
     aliceState\<lparr>editingItemId := Some ''B'',
                 editingItem := Some \<lparr>edit_id = ''B'', edit_name = ''Helmet (red)'',
                                      edit_price = ''abc'', edit_currency = ''USD'',
                                      edit_link = ''https://example.org/helmet'',
                                      edit_parentId = Some ''A'', edit_isRequired = Some False,
                                      tempCurrency = ''EUR''\<rparr>\<rparr>"

text \<open>A drop that moves the first item of a list to the third position.\<close>

definition dragFirstToLast :: DropResult where
  "dragFirstToLast = \<lparr>source_index = 0, destination_index = Some 2\<rparr>"

section \<open>Evaluation of the number functions\<close>

lemma floor_rat_divide_numeral [simp]:
  "\<lfloor>(numeral a :: rat) / numeral b\<rfloor> = numeral a div numeral b"
  using floor_divide_of_int_eq [of "numeral a" "numeral b", where ?'a = rat] by simp

lemma digits_of_0 [simp]: "digits_of 0 = ''0''"
  by (simp add: digits_of.simps)

lemma digits_of_1 [simp]: "digits_of 1 = ''1''"
  by (simp add: digits_of.simps)

lemma digits_of_Suc_0 [simp]: "digits_of (Suc 0) = ''1''"
  by (simp add: digits_of.simps)

lemma digits_of_numeral [simp]:
  "digits_of (numeral k) =
     (if numeral k < (10::nat) then [''0123456789'' ! numeral k]
      else digits_of (numeral k div 10) @ [''0123456789'' ! (numeral k mod 10)])"
  by (rule digits_of.simps)

lemma bitLength_0 [simp]: "bitLength 0 = 0"
  by (simp add: bitLength.simps)

lemma bitLength_1 [simp]: "bitLength 1 = 1"
  by (simp add: bitLength.simps)

lemma bitLength_Suc_0 [simp]: "bitLength (Suc 0) = 1"
  by (simp add: bitLength.simps)

lemma bitLength_numeral [simp]:
  "bitLength (numeral k) = Suc (bitLength (numeral k div 2))"
  by (subst bitLength.simps) simp

lemma ceiling_rat_divide_numeral [simp]:
  "\<lceil>(numeral a :: rat) / numeral b\<rceil> = - ((- numeral a) div numeral b)"
  using ceiling_divide_eq_div [of "numeral a" "numeral b", where ?'a = rat] by simp

lemmas binary64_defs =
  toBinary64_def floorLog2_def roundHalfEven_def pow2_def binary64_add_def Let_def

text \<open>The sum of 0.1 and 0.2 is the binary64 number 0.30000000000000004.\<close>

lemma binary64_add_tenths:
  "binary64_add (Fin (1 / 10)) (Fin (2 / 10)) = Fin (5404319552844596 / 2 ^ 54)"
  by (simp add: binary64_defs)

lemmas number_defs =
  toFixedUnsigned_def Let_def parseFloat_def parseUnsigned_def isWhiteSpace_def
  isDecimalDigit_def decimalValue_def pow10_def parseExponent_def

lemmas example_defs =
  initialState_def aliceState_def editingState_def zeroRateState_def infiniteRateState_def
  euroState_def alice_def bob_def
  itemA_def itemB_def itemC_def itemD_def

lemma example_editing:
  "people editingState = [alice, bob]"
  "editingItemId editingState = Some ''B''"
  "editingItem editingState =
     Some \<lparr>edit_id = ''B'', edit_name = ''Helmet (red)'', edit_price = ''abc'',
           edit_currency = ''USD'', edit_link = ''https://example.org/helmet'',
           edit_parentId = Some ''A'', edit_isRequired = Some False, tempCurrency = ''EUR''\<rparr>"
  by (simp_all add: editingState_def aliceState_def initialState_def)

lemma example_item_fields:
  "item_id itemA = ''A''" "item_id itemB = ''B''" "item_id itemC = ''C''" "item_id itemD = ''D''"
  "parentId itemA = None" "parentId itemB = Some ''A''" "parentId itemC = Some ''A''"
  "parentId itemD = None"
  "isRequired itemA = Some False" "isRequired itemB = Some True"
  "isRequired itemC = Some False" "isRequired itemD = Some False"
  by (simp_all add: itemA_def itemB_def itemC_def itemD_def)

lemma example_people:
  "people aliceState = [alice, bob]" "sortDirection aliceState = asc"
  "person_id alice = ''alice''" "person_id bob = ''bob''"
  "person_name alice = ''Alice''" "person_name bob = ''Bob''"
  "items alice = [itemA, itemB, itemC]" "items bob = [itemD]"
  by (simp_all add: aliceState_def initialState_def alice_def bob_def)

lemma convertedPrice_alice:
  "convertedPrice aliceState itemA = Fin 100"
  "convertedPrice aliceState itemB = Fin 20"
  "convertedPrice aliceState itemC = Fin 5"
  by (simp_all add: convertedPrice_def convertPrice_def fx_def example_defs number_defs)

section \<open>Printing with toFixed and reading back with parseFloat\<close>

text \<open>
  The digits \<^verbatim>\<open>toFixed(2)\<close> prints for a finite value below \<open>10^21\<close> read back as
  that value rounded to two decimals; a value with at most two decimals reads back as
  itself.
\<close>

lemma digit_char:
  assumes "d < 10"
  shows "isDecimalDigit (''0123456789'' ! d)" and "of_char (''0123456789'' ! d) - 48 = d"
proof -
  from assms have "d \<in> {0, 1, 2, 3, 4, 5, 6, 7, 8, 9}" by auto
  then show "isDecimalDigit (''0123456789'' ! d)" and "of_char (''0123456789'' ! d) - 48 = d"
    by (auto simp: isDecimalDigit_def)
qed

lemma digits_of_digits: "\<forall>c \<in> set (digits_of n). isDecimalDigit c"
proof (induction n rule: digits_of.induct)
  case (1 n)
  show ?case
  proof (cases "n < 10")
    case True
    then show ?thesis by (subst digits_of.simps) (simp add: digit_char)
  next
    case False
    with 1 show ?thesis by (subst digits_of.simps) (simp add: digit_char)
  qed
qed

lemma digits_of_nonempty: "digits_of n \<noteq> []"
  by (subst digits_of.simps) simp

lemma decimalValue_snoc:
  "decimalValue (xs @ [c]) = 10 * decimalValue xs + (of_char c - 48)"
  by (simp add: decimalValue_def)

lemma decimalValue_digits_of: "decimalValue (digits_of n) = n"
proof (induction n rule: digits_of.induct)
  case (1 n)
  show ?case
  proof (cases "n < 10")
    case True
    then show ?thesis
      by (subst digits_of.simps) (simp add: decimalValue_def digit_char)
  next
    case False
    with 1 show ?thesis
      by (subst digits_of.simps) (simp add: decimalValue_snoc digit_char)
  qed
qed

lemma foldl_decimal:
  fixes a :: nat
  defines "f \<equiv> \<lambda>n c. 10 * n + (of_char c - 48) :: nat"
  shows "foldl f a ys = a * 10 ^ length ys + foldl f 0 ys"
proof (induction ys arbitrary: a)
  case Nil
  then show ?case by simp
next
  case (Cons y ys)
  have "foldl f a (y # ys) = foldl f (f a y) ys" by simp
  also have "\<dots> = f a y * 10 ^ length ys + foldl f 0 ys" by (rule Cons.IH)
  also have "f a y = 10 * a + f 0 y" by (simp add: f_def)
  also have "(10 * a + f 0 y) * 10 ^ length ys + foldl f 0 ys
               = a * 10 ^ length (y # ys) + (f 0 y * 10 ^ length ys + foldl f 0 ys)"
    by (simp add: algebra_simps)
  also have "f 0 y * 10 ^ length ys + foldl f 0 ys = foldl f (f 0 y) ys"
    by (rule Cons.IH [symmetric])
  also have "\<dots> = foldl f 0 (y # ys)" by simp
  finally show ?case .
qed

lemma decimalValue_append:
  "decimalValue (xs @ ys) = decimalValue xs * 10 ^ length ys + decimalValue ys"
  unfolding decimalValue_def foldl_append by (rule foldl_decimal)

lemma decimalValue_zeros: "decimalValue (replicate k CHR ''0'' @ xs) = decimalValue xs"
proof -
  have "decimalValue (replicate k CHR ''0'') = 0"
    by (induction k) (simp_all add: decimalValue_def)
  then show ?thesis by (simp add: decimalValue_append)
qed

lemma digit_not_other:
  assumes "isDecimalDigit c"
  shows "\<not> isWhiteSpace c" and "c \<noteq> CHR ''-''" and "c \<noteq> CHR ''+''" and "c \<noteq> CHR ''I''"
  using assms by (auto simp: isDecimalDigit_def isWhiteSpace_def)

lemma point_no_digit: "\<not> isDecimalDigit CHR ''.''"
  by (simp add: isDecimalDigit_def)

lemma parseUnsigned_decimal:
  assumes "a \<noteq> []" and da: "\<forall>c \<in> set a. isDecimalDigit c" and db: "\<forall>c \<in> set b. isDecimalDigit c"
  shows "parseUnsigned (a @ CHR ''.'' # b)
           = Fin (of_nat (decimalValue a) + of_nat (decimalValue b) / 10 ^ length b)"
proof -
  from assms obtain c a' where a: "a = c # a'" and c: "isDecimalDigit c"
    by (cases a) auto
  have inf: "take 8 (a @ CHR ''.'' # b) \<noteq> ''Infinity''"
    using digit_not_other(4) [OF c] by (simp add: a)
  have tw: "takeWhile isDecimalDigit (a @ CHR ''.'' # b) = a"
    using da by (simp add: takeWhile_append2 point_no_digit)
  have dw: "dropWhile isDecimalDigit (a @ CHR ''.'' # b) = CHR ''.'' # b"
    using da by (simp add: dropWhile_append2 point_no_digit)
  have tb: "takeWhile isDecimalDigit b = b" "dropWhile isDecimalDigit b = []"
    using db by simp_all
  show ?thesis
    unfolding parseUnsigned_def Let_def tw dw
    using inf \<open>a \<noteq> []\<close> by (simp add: tb parseExponent_def pow10_def)
qed

lemma parseFloat_decimal:
  assumes "a \<noteq> []" and da: "\<forall>c \<in> set a. isDecimalDigit c" and db: "\<forall>c \<in> set b. isDecimalDigit c"
  shows "parseFloat (a @ CHR ''.'' # b)
           = Fin (of_nat (decimalValue a) + of_nat (decimalValue b) / 10 ^ length b)"
    and "parseFloat (CHR ''-'' # a @ CHR ''.'' # b)
           = Fin (- (of_nat (decimalValue a) + of_nat (decimalValue b) / 10 ^ length b))"
proof -
  from assms obtain c a' where a: "a = c # a'" and c: "isDecimalDigit c"
    by (cases a) auto
  have "parseFloat (a @ CHR ''.'' # b) = parseUnsigned (a @ CHR ''.'' # b)"
    using digit_not_other [OF c] by (simp add: parseFloat_def a)
  then show "parseFloat (a @ CHR ''.'' # b)
           = Fin (of_nat (decimalValue a) + of_nat (decimalValue b) / 10 ^ length b)"
    by (simp add: parseUnsigned_decimal [OF assms])
  have "parseFloat (CHR ''-'' # a @ CHR ''.'' # b) = js_neg (parseUnsigned (a @ CHR ''.'' # b))"
    by (simp add: parseFloat_def isWhiteSpace_def)
  then show "parseFloat (CHR ''-'' # a @ CHR ''.'' # b)
           = Fin (- (of_nat (decimalValue a) + of_nat (decimalValue b) / 10 ^ length b))"
    by (simp add: parseUnsigned_decimal [OF assms])
qed

lemma toFixedUnsigned_small:
  assumes "y < 10 ^ 21"
  shows "toFixedUnsigned 2 y =
    take (length (replicate (3 - length (digits_of (nat \<lfloor>y * 100 + 1 / 2\<rfloor>))) CHR ''0'' @ digits_of (nat \<lfloor>y * 100 + 1 / 2\<rfloor>)) - 2)
      (replicate (3 - length (digits_of (nat \<lfloor>y * 100 + 1 / 2\<rfloor>))) CHR ''0'' @ digits_of (nat \<lfloor>y * 100 + 1 / 2\<rfloor>))
    @ CHR ''.'' #
    drop (length (replicate (3 - length (digits_of (nat \<lfloor>y * 100 + 1 / 2\<rfloor>))) CHR ''0'' @ digits_of (nat \<lfloor>y * 100 + 1 / 2\<rfloor>)) - 2)
      (replicate (3 - length (digits_of (nat \<lfloor>y * 100 + 1 / 2\<rfloor>))) CHR ''0'' @ digits_of (nat \<lfloor>y * 100 + 1 / 2\<rfloor>))"
proof -
  from assms have "\<not> 10 ^ 21 \<le> y" by simp
  then show ?thesis
    unfolding toFixedUnsigned_def Let_def
    by (simp only: if_False power2_eq_square numeral_eq_iff semiring_norm
        zero_neq_numeral numeral_plus_one append_Cons append_Nil simp_thms)
qed

lemma zero_digit: "isDecimalDigit CHR ''0''"
  by (simp add: isDecimalDigit_def)

lemma toFixedUnsigned_shape:
  assumes "y < 10 ^ 21"
  shows "\<exists>a b. toFixedUnsigned 2 y = a @ CHR ''.'' # b \<and> a \<noteq> []
           \<and> (\<forall>c \<in> set a. isDecimalDigit c) \<and> (\<forall>c \<in> set b. isDecimalDigit c)
           \<and> length b = 2
           \<and> decimalValue a * 100 + decimalValue b = nat \<lfloor>y * 100 + 1 / 2\<rfloor>"
proof -
  define n where "n = nat \<lfloor>y * 100 + 1 / 2\<rfloor>"
  define m where "m = replicate (3 - length (digits_of n)) CHR ''0'' @ digits_of n"
  define a where "a = take (length m - 2) m"
  define b where "b = drop (length m - 2) m"
  have len: "3 \<le> length m"
    by (simp add: m_def)
  have "set m \<subseteq> insert CHR ''0'' (set (digits_of n))"
    unfolding m_def by (simp add: subset_iff)
  with digits_of_digits [of n] zero_digit have dig: "\<forall>c \<in> set m. isDecimalDigit c"
    by blast
  have val: "decimalValue m = n"
    unfolding m_def by (simp only: decimalValue_zeros decimalValue_digits_of)
  have 1: "toFixedUnsigned 2 y = a @ CHR ''.'' # b"
    unfolding a_def b_def m_def n_def by (rule toFixedUnsigned_small [OF assms])
  have 2: "a \<noteq> []" using len by (auto simp: a_def)
  have "set a \<subseteq> set m" "set b \<subseteq> set m"
    unfolding a_def b_def by (rule set_take_subset, rule set_drop_subset)
  with dig have 3: "\<forall>c \<in> set a. isDecimalDigit c" "\<forall>c \<in> set b. isDecimalDigit c"
    by blast+
  have 4: "length b = 2" using len by (simp add: b_def)
  have "a @ b = m" unfolding a_def b_def by (rule append_take_drop_id)
  with val have "decimalValue (a @ b) = n" by simp
  then have 5: "decimalValue a * 100 + decimalValue b = n"
    by (simp add: decimalValue_append 4)
  from 1 2 3 4 5 show ?thesis unfolding n_def by blast
qed

lemma parseFloat_toFixedUnsigned:
  assumes "0 \<le> y" and "y < 10 ^ 21"
  shows "parseFloat (toFixedUnsigned 2 y) = Fin (of_int \<lfloor>y * 100 + 1 / 2\<rfloor> / 100)"
    and "parseFloat (CHR ''-'' # toFixedUnsigned 2 y) = Fin (- (of_int \<lfloor>y * 100 + 1 / 2\<rfloor> / 100))"
proof -
  from toFixedUnsigned_shape [OF assms(2)] obtain a b where
    s: "toFixedUnsigned 2 y = a @ CHR ''.'' # b" and a: "a \<noteq> []"
    and d: "\<forall>c \<in> set a. isDecimalDigit c" "\<forall>c \<in> set b. isDecimalDigit c"
    and l: "length b = 2"
    and v: "decimalValue a * 100 + decimalValue b = nat \<lfloor>y * 100 + 1 / 2\<rfloor>"
    by blast
  from assms have "0 \<le> \<lfloor>y * 100 + 1 / 2\<rfloor>" by simp
  then have "(of_int \<lfloor>y * 100 + 1 / 2\<rfloor> :: rat) = of_nat (nat \<lfloor>y * 100 + 1 / 2\<rfloor>)"
    by simp
  also have "\<dots> = of_nat (decimalValue a) * 100 + of_nat (decimalValue b)"
    by (simp only: v [symmetric] of_nat_add of_nat_mult of_nat_numeral)
  finally have e: "of_nat (decimalValue a) + of_nat (decimalValue b) / 10 ^ length b
                    = (of_int \<lfloor>y * 100 + 1 / 2\<rfloor> :: rat) / 100"
    by (simp add: l field_simps)
  show "parseFloat (toFixedUnsigned 2 y) = Fin (of_int \<lfloor>y * 100 + 1 / 2\<rfloor> / 100)"
    unfolding s parseFloat_decimal(1) [OF a d] e ..
  show "parseFloat (CHR ''-'' # toFixedUnsigned 2 y) = Fin (- (of_int \<lfloor>y * 100 + 1 / 2\<rfloor> / 100))"
    unfolding s parseFloat_decimal(2) [OF a d] e ..
qed

lemma parseFloat_toFixed:
  assumes "\<bar>x\<bar> < 10 ^ 21"
  shows "parseFloat (toFixed 2 (Fin x)) = Fin (roundTo2 x)"
proof (cases "x < 0")
  case True
  with assms have "0 \<le> - x" "- x < 10 ^ 21" by simp_all
  from parseFloat_toFixedUnsigned(2) [OF this] True show ?thesis
    by (simp add: roundTo2_def)
next
  case False
  with assms have "0 \<le> x" "x < 10 ^ 21" by simp_all
  from parseFloat_toFixedUnsigned(1) [OF this] False show ?thesis
    by (simp add: roundTo2_def)
qed

lemma roundTo2_hundredths: "roundTo2 (of_int k / 100) = of_int k / 100"
proof -
  have f: "\<lfloor>(of_int j :: rat) + 1 / 2\<rfloor> = j" for j
    by (simp add: floor_unique)
  show ?thesis
  proof (cases "0 \<le> k")
    case True
    then show ?thesis by (simp add: roundTo2_def f)
  next
    case False
    then have n: "\<not> (0::rat) \<le> of_int k / 100"
      by (simp add: divide_less_0_iff not_le)
    have "- (rat_of_int k / 100) * 100 + 1 / 2 = of_int (- k) + 1 / 2"
      by simp
    then have "\<lfloor>- (rat_of_int k / 100) * 100 + 1 / 2\<rfloor> = - k"
      by (simp only: f)
    then have "roundTo2 (of_int k / 100) = - (of_int (- k) / 100)"
      unfolding roundTo2_def using n by (simp only: if_False)
    then show ?thesis by simp
  qed
qed

lemma parseFloat_toFixed_props:
  "(\<forall>x. a = Fin x \<and> \<bar>x\<bar> < 10 ^ 21 \<longrightarrow> parseFloat (toFixed 2 a) = Fin (roundTo2 x))
   \<and> (\<forall>k. a = Fin (of_int k / 100) \<and> \<bar>k\<bar> < 10 ^ 23 \<longrightarrow> parseFloat (toFixed 2 a) = a)"
proof (intro conjI allI impI)
  fix x
  assume "a = Fin x \<and> \<bar>x\<bar> < 10 ^ 21"
  then show "parseFloat (toFixed 2 a) = Fin (roundTo2 x)"
    by (simp only: parseFloat_toFixed)
next
  fix k :: int
  assume h: "a = Fin (of_int k / 100) \<and> \<bar>k\<bar> < 10 ^ 23"
  then have "\<bar>rat_of_int k\<bar> < 10 ^ 23"
    by (metis of_int_abs of_int_less_iff of_int_numeral of_int_power)
  then have "\<bar>rat_of_int k / 100\<bar> < 10 ^ 21"
    by simp
  then have "parseFloat (toFixed 2 (Fin (of_int k / 100))) = Fin (roundTo2 (of_int k / 100))"
    by (rule parseFloat_toFixed)
  with h show "parseFloat (toFixed 2 a) = a"
    by (simp only: roundTo2_hundredths)
qed

section \<open>Arithmetic of numbers\<close>

lemma js_mul_one: "js_mul a (Fin 1) = a"
  by (cases a) simp_all

lemma js_le_trans: "js_le x y \<Longrightarrow> js_le y z \<Longrightarrow> js_le x z"
  by (cases x; cases y; cases z) simp_all

lemma js_le_total: "x \<noteq> NaN \<Longrightarrow> y \<noteq> NaN \<Longrightarrow> js_le x y \<or> js_le y x"
  by (cases x; cases y) auto

lemma js_positive_sub:
  "x \<noteq> NaN \<Longrightarrow> y \<noteq> NaN \<Longrightarrow> js_positive (js_sub x y) \<longleftrightarrow> \<not> js_le x y"
  by (cases x; cases y) (auto simp: js_sub_def)

section \<open>The sort is a stable insertion: permutation and order\<close>

lemma mset_sortInsert: "mset (sortInsert c x xs) = add_mset x (mset xs)"
  by (induction xs) simp_all

lemma mset_array_sort: "mset (array_sort c xs) = mset xs"
  by (induction xs) (simp_all add: array_sort_def mset_sortInsert)

lemma set_sortInsert: "set (sortInsert c x xs) = insert x (set xs)"
  using mset_sortInsert [of c x xs, THEN arg_cong, of set_mset] by simp

lemma set_array_sort: "set (array_sort c xs) = set xs"
  using mset_array_sort [of c xs, THEN arg_cong, of set_mset] by simp

lemma array_sort_Cons: "array_sort c (x # xs) = sortInsert c x (array_sort c xs)"
  by (simp add: array_sort_def)

text \<open>
  Inserting into a list that is sorted by \<open>R\<close> keeps it sorted, where \<open>R\<close> is total on
  the elements and transitive, and the comparator is positive exactly where \<open>R\<close> fails.
\<close>

lemma sorted_sortInsert:
  assumes total: "\<And>a b. a \<in> S \<Longrightarrow> b \<in> S \<Longrightarrow> R a b \<or> R b a"
    and trans: "\<And>a b d. R a b \<Longrightarrow> R b d \<Longrightarrow> R a d"
    and cmp: "\<And>a b. a \<in> S \<Longrightarrow> b \<in> S \<Longrightarrow> js_positive (c a b) \<longleftrightarrow> \<not> R a b"
    and sub: "insert x (set xs) \<subseteq> S"
    and sorted: "sorted_wrt R xs"
  shows "sorted_wrt R (sortInsert c x xs)"
  using sub sorted
proof (induction xs)
  case Nil
  then show ?case by simp
next
  case (Cons y ys)
  from Cons.prems have mem: "x \<in> S" "y \<in> S" by simp_all
  show ?case
  proof (cases "js_positive (c x y)")
    case True
    with mem have "\<not> R x y" by (simp add: cmp)
    with mem have yx: "R y x" using total by blast
    have "sorted_wrt R (sortInsert c x ys)"
      using Cons.prems by (intro Cons.IH) auto
    with yx Cons.prems True show ?thesis
      by (auto simp: set_sortInsert)
  next
    case False
    with mem have xy: "R x y" by (simp add: cmp)
    with Cons.prems have "\<forall>b \<in> set ys. R x b"
      by (auto intro: trans)
    with xy Cons.prems False show ?thesis by simp
  qed
qed

lemma sorted_array_sort:
  assumes total: "\<And>a b. a \<in> set xs \<Longrightarrow> b \<in> set xs \<Longrightarrow> R a b \<or> R b a"
    and trans: "\<And>a b d. R a b \<Longrightarrow> R b d \<Longrightarrow> R a d"
    and cmp: "\<And>a b. a \<in> set xs \<Longrightarrow> b \<in> set xs \<Longrightarrow> js_positive (c a b) \<longleftrightarrow> \<not> R a b"
  shows "sorted_wrt R (array_sort c xs)"
proof -
  have "set ys \<subseteq> set xs \<Longrightarrow> sorted_wrt R (array_sort c ys)" for ys
  proof (induction ys)
    case Nil
    then show ?case by (simp add: array_sort_def)
  next
    case (Cons y ys)
    then have "sorted_wrt R (array_sort c ys)" by simp
    with Cons.prems show ?case
      unfolding array_sort_Cons
      by (intro sorted_sortInsert [where S = "set xs"])
         (auto simp: set_array_sort total cmp intro: trans)
  qed
  then show ?thesis by simp
qed

section \<open>Splice: taking an element out and putting it back\<close>

lemma spliceStart_in_range: "0 \<le> k \<Longrightarrow> k \<le> int n \<Longrightarrow> spliceStart k n = nat k"
  by (auto simp: spliceStart_def)

lemma insert_at:
  assumes "n \<le> length zs"
  shows "(take n zs @ [x] @ drop n zs) ! n = x"
    and "take n (take n zs @ [x] @ drop n zs) = take n zs"
    and "drop (Suc n) (take n zs @ [x] @ drop n zs) = drop n zs"
  using assms by (simp_all add: nth_append min_absorb2)

lemma reorderItems_valid:
  assumes "0 \<le> f" and "f < int (length xs)" and "0 \<le> t" and "t < int (length xs)"
  shows "reorderItems f t xs =
           Some (take (nat t) (take (nat f) xs @ drop (Suc (nat f)) xs) @ [xs ! nat f]
                 @ drop (nat t) (take (nat f) xs @ drop (Suc (nat f)) xs))"
proof -
  from assms have s: "spliceStart f (length xs) = nat f"
    by (simp add: spliceStart_in_range)
  from assms have f: "nat f < length xs" by simp
  then have r: "take 1 (drop (nat f) xs) = [xs ! nat f]"
    by (simp add: Cons_nth_drop_Suc [symmetric])
  from assms f have "t \<le> int (length (take (nat f) xs @ drop (Suc (nat f)) xs))"
    by simp
  with assms have d: "spliceStart t (length (take (nat f) xs @ drop (Suc (nat f)) xs)) = nat t"
    by (intro spliceStart_in_range) simp_all
  show ?thesis
    unfolding reorderItems_def Let_def s r using d by simp
qed

lemma reorderItems_props:
  assumes "0 \<le> f" and "f < int (length xs)" and "0 \<le> t" and "t < int (length xs)"
  shows "\<exists>ys. reorderItems f t xs = Some ys \<and> ys ! nat t = xs ! nat f \<and> mset ys = mset xs
           \<and> take (nat t) ys @ drop (Suc (nat t)) ys = take (nat f) xs @ drop (Suc (nat f)) xs"
proof -
  define rest where "rest = take (nat f) xs @ drop (Suc (nat f)) xs"
  define ys where "ys = take (nat t) rest @ [xs ! nat f] @ drop (nat t) rest"
  from assms have f: "nat f < length xs" by simp
  with assms have t: "nat t \<le> length rest" by (simp add: rest_def)
  have 1: "ys ! nat t = xs ! nat f"
    unfolding ys_def using t by (rule insert_at)
  have "mset (take (nat t) rest) + mset (drop (nat t) rest) = mset rest"
    by (simp only: mset_append [symmetric] append_take_drop_id)
  then have "mset ys = add_mset (xs ! nat f) (mset rest)"
    by (simp add: ys_def)
  also have "\<dots> = mset (take (nat f) xs @ xs ! nat f # drop (Suc (nat f)) xs)"
    by (simp add: rest_def)
  also have "\<dots> = mset xs"
    using f by (simp only: id_take_nth_drop [symmetric])
  finally have 2: "mset ys = mset xs" .
  have "take (nat t) ys = take (nat t) rest" "drop (Suc (nat t)) ys = drop (nat t) rest"
    unfolding ys_def using t by (rule insert_at)+
  then have 3: "take (nat t) ys @ drop (Suc (nat t)) ys = rest"
    by (simp only: append_take_drop_id)
  have "reorderItems f t xs = Some ys"
    unfolding ys_def rest_def by (rule reorderItems_valid [OF assms])
  with 1 2 3 show ?thesis
    unfolding rest_def by blast
qed

lemma those_map_nth:
  "those (map f xs) = Some ys \<Longrightarrow>
   length ys = length xs \<and> (\<forall>i < length xs. f (xs ! i) = Some (ys ! i))"
proof (induction xs arbitrary: ys)
  case Nil
  then show ?case by simp
next
  case (Cons x xs)
  then obtain y ys' where "f x = Some y" "those (map f xs) = Some ys'" "ys = y # ys'"
    by (auto split: option.splits)
  with Cons.IH [of ys'] show ?case
    by (auto simp: nth_Cons split: nat.splits)
qed

lemma those_map_Some:
  "\<forall>x \<in> set xs. f x = Some (g x) \<Longrightarrow> those (map f xs) = Some (map g xs)"
  by (induction xs) simp_all

section \<open>What the operations do to the list of people\<close>

lemma people_removeItem:
  "people (removeItem st personId itemId) =
     map (\<lambda>person.
            if person_id person = personId then
              person\<lparr>items := filter (\<lambda>item. item_id item \<noteq> itemId
                                          \<and> parentId item \<noteq> Some itemId) (items person)\<rparr>
            else person)
         (people st)"
proof -
  have eq: "(\<lambda>item. if item_id item = itemId then False
                else if parentId item = Some itemId then False else True)
        = (\<lambda>item. item_id item \<noteq> itemId \<and> parentId item \<noteq> Some itemId)"
    by auto
  show ?thesis unfolding removeItem_def eq by simp
qed

lemma people_sortItemsByPrice:
  "people (sortItemsByPrice st personId) =
     map (\<lambda>person.
            if person_id person = personId then
              person\<lparr>items :=
                array_sort
                  (\<lambda>a b. if sortDirection st = asc
                         then js_sub (convertedPrice st a) (convertedPrice st b)
                         else js_sub (convertedPrice st b) (convertedPrice st a))
                  (items person)\<rparr>
            else person)
         (people st)"
  unfolding sortItemsByPrice_def convertedPrice_def Let_def by simp

lemma sortDirection_sortItemsByPrice:
  "sortDirection (sortItemsByPrice st personId) = (if sortDirection st = asc then desc else asc)"
  by (simp add: sortItemsByPrice_def)

lemma convertedPrice_sortItemsByPrice:
  "convertedPrice (sortItemsByPrice st personId) = convertedPrice st"
  by (rule ext) (simp add: convertedPrice_def convertPrice_def sortItemsByPrice_def)

lemma items_sortItemsByPrice:
  assumes "i < length (people st)" and "person_id (people st ! i) = personId"
  shows "items (people (sortItemsByPrice st personId) ! i) =
           array_sort
             (\<lambda>a b. if sortDirection st = asc
                    then js_sub (convertedPrice st a) (convertedPrice st b)
                    else js_sub (convertedPrice st b) (convertedPrice st a))
             (items (people st ! i))"
  using assms by (simp add: people_sortItemsByPrice)

lemma person_id_sortItemsByPrice:
  assumes "i < length (people st)"
  shows "person_id (people (sortItemsByPrice st personId) ! i) = person_id (people st ! i)"
  using assms by (simp add: people_sortItemsByPrice)

lemma length_people_sortItemsByPrice:
  "length (people (sortItemsByPrice st personId)) = length (people st)"
  by (simp add: people_sortItemsByPrice)

lemma ascending_sort:
  assumes "\<forall>item \<in> set xs. convertedPrice st item \<noteq> NaN"
  shows "ascending st
           (array_sort (\<lambda>a b. js_sub (convertedPrice st a) (convertedPrice st b)) xs)"
  unfolding ascending_def using assms
  by (intro sorted_array_sort) (auto simp: js_positive_sub js_le_total intro: js_le_trans)

lemma descending_sort:
  assumes "\<forall>item \<in> set xs. convertedPrice st item \<noteq> NaN"
  shows "descending st
           (array_sort (\<lambda>a b. js_sub (convertedPrice st b) (convertedPrice st a)) xs)"
  unfolding descending_def using assms
  by (intro sorted_array_sort) (auto simp: js_positive_sub js_le_total intro: js_le_trans)


section \<open>The group total\<close>




text \<open>
  Claim C1, as stated: the group total is the parent's converted price plus the sum of the
  converted prices of the required children. It is not: every price is printed with two
  decimals by \<^verbatim>\<open>convertPrice\<close> before it is added. A parent and a required child of
  0.004 USD each, shown in USD at the rate 1, convert to 0.004 each, which do not add up
  to 0; the group total is 0. It is 0 without a rate table as well, where the prices are
  taken as they are.
\<close>

theorem calculateGroupTotal_counterexample:
  "item_id tinyParent = ''P'' \<and> parentId tinyChild = Some ''P''
   \<and> isRequired tinyChild = Some True
   \<and> fx (rates aliceState) (price tinyParent) (currency tinyParent) (displayCurrency aliceState)
       = Inr (Fin (4 / 1000))
   \<and> fx (rates aliceState) (price tinyChild) (currency tinyChild) (displayCurrency aliceState)
       = Inr (Fin (4 / 1000))
   \<and> binary64_add (Fin (4 / 1000)) (Fin (4 / 1000)) \<noteq> Fin 0
   \<and> calculateGroupTotal aliceState [tinyParent, tinyChild] ''P'' = Fin 0
   \<and> rates initialState (currency tinyParent) = None
   \<and> rates initialState (currency tinyChild) = None
   \<and> calculateGroupTotal initialState [tinyParent, tinyChild] ''P'' = Fin 0"
proof -
  have 1: "item_id tinyParent = ''P''" "parentId tinyChild = Some ''P''"
    "isRequired tinyChild = Some True" "item_id tinyChild = ''Q''" "parentId tinyParent = None"
    by (simp_all add: tinyParent_def tinyChild_def)
  have 2: "fx (rates aliceState) (price tinyParent) (currency tinyParent)
             (displayCurrency aliceState) = Inr (Fin (4 / 1000))"
    "fx (rates aliceState) (price tinyChild) (currency tinyChild)
             (displayCurrency aliceState) = Inr (Fin (4 / 1000))"
    by (simp_all add: fx_def tinyParent_def tinyChild_def example_defs)
  have 3: "binary64_add (Fin (4 / 1000)) (Fin (4 / 1000)) \<noteq> Fin 0"
    by (simp add: binary64_defs)
  have c: "parseFloat (convertPrice aliceState (price tinyParent) (currency tinyParent)
             (displayCurrency aliceState)) = Fin 0"
    "parseFloat (convertPrice aliceState (price tinyChild) (currency tinyChild)
             (displayCurrency aliceState)) = Fin 0"
    by (simp_all add: convertPrice_def fx_def tinyParent_def tinyChild_def example_defs
        number_defs)
  have z: "binary64_add (Fin 0) (Fin 0) = Fin 0"
    by (simp add: binary64_defs)
  have 4: "calculateGroupTotal aliceState [tinyParent, tinyChild] ''P'' = Fin 0"
    by (simp add: calculateGroupTotal_def 1 c z)
  have 5: "rates initialState (currency tinyParent) = None"
    "rates initialState (currency tinyChild) = None"
    by (simp_all add: initialState_def)
  have d: "parseFloat (convertPrice initialState (price tinyParent) (currency tinyParent)
             (displayCurrency initialState)) = Fin 0"
    "parseFloat (convertPrice initialState (price tinyChild) (currency tinyChild)
             (displayCurrency initialState)) = Fin 0"
    by (simp_all add: convertPrice_def tinyParent_def tinyChild_def example_defs number_defs)
  have 6: "calculateGroupTotal initialState [tinyParent, tinyChild] ''P'' = Fin 0"
    by (simp add: calculateGroupTotal_def 1 d z)
  from 1 2 3 4 5 6 show ?thesis by simp
qed




section \<open>Removing an item\<close>

text \<open>
  Claim C2. \<^verbatim>\<open>removeItem\<close> takes out of the person's list the items whose id is
  \<open>itemId\<close> and the items whose \<^verbatim>\<open>parentId\<close> is \<open>itemId\<close>, and nothing else: every
  other item occurs as often as before, and the items left are in their former order.
\<close>

theorem removeItem_spec:
  assumes "i < length (people st)" and "person_id (people st ! i) = personId"
  shows "subseq (items (people (removeItem st personId itemId) ! i)) (items (people st ! i))
     \<and> (\<forall>item. count (mset (items (people (removeItem st personId itemId) ! i))) item =
           (if item_id item = itemId \<or> parentId item = Some itemId then 0
            else count (mset (items (people st ! i))) item))"
proof -
  have "items (people (removeItem st personId itemId) ! i) =
          filter (\<lambda>item. item_id item \<noteq> itemId \<and> parentId item \<noteq> Some itemId)
            (items (people st ! i))"
    using assms by (simp add: people_removeItem)
  then show ?thesis by simp
qed

text \<open>The scenario of the specification: removing A from Alice's items leaves none.\<close>

theorem removeItem_spec_witness:
  "0 < length (people aliceState) \<and> person_id (people aliceState ! 0) = ''alice''
   \<and> items (people aliceState ! 0) = [itemA, itemB, itemC]
   \<and> items (people (removeItem aliceState ''alice'' ''A'') ! 0) = []"
proof -
  have h: "0 < length (people aliceState)" "person_id (people aliceState ! 0) = ''alice''"
    by (simp_all add: example_people)
  have e: "items (people aliceState ! 0) = [itemA, itemB, itemC]"
    by (simp add: example_people)
  have c: "\<forall>item \<in> set [itemA, itemB, itemC]. item_id item = ''A'' \<or> parentId item = Some ''A''"
    by (simp add: example_item_fields)
  have "count (mset (items (people (removeItem aliceState ''alice'' ''A'') ! 0))) item = 0"
    for item
  proof (cases "item \<in> set [itemA, itemB, itemC]")
    case True
    with c have "item_id item = ''A'' \<or> parentId item = Some ''A''" by blast
    with removeItem_spec [OF h, of "''A''"] show ?thesis by simp
  next
    case False
    then have "count (mset [itemA, itemB, itemC]) item = 0"
      by (simp only: count_mset_0_iff not_False_eq_True)
    with removeItem_spec [OF h, of "''A''"] show ?thesis unfolding e by simp
  qed
  then have "mset (items (people (removeItem aliceState ''alice'' ''A'') ! 0)) = {#}"
    by (simp add: multiset_eq_iff)
  with h e show ?thesis by simp
qed

section \<open>Currency conversion\<close>

lemma convertPrice_fallback:
  "\<not> ToBoolean (rates st c1) \<or> \<not> ToBoolean (rates st c2) \<Longrightarrow>
   convertPrice st a c1 c2 = toFixed 2 a"
  by (simp add: convertPrice_def)

text \<open>
  Claim C3, as stated: with a currency absent from the rate table the conversion returns
  the amount unchanged. It does not: \<^verbatim>\<open>convertPrice\<close> returns \<^verbatim>\<open>price.toFixed(2)\<close>,
  and for the amount 1.234 that is the text \<^verbatim>\<open>1.23\<close>, which reads back as another
  number.
\<close>

theorem convertPrice_missing_rate_counterexample:
  "convertPrice initialState (Fin (1234 / 1000)) ''USD'' ''SEK'' = ''1.23''
   \<and> parseFloat (convertPrice initialState (Fin (1234 / 1000)) ''USD'' ''SEK'')
       \<noteq> Fin (1234 / 1000)"
  by (simp add: convertPrice_def example_defs number_defs)

text \<open>
  Claim C3, amended: with a currency absent from the rate table the conversion returns
  the amount printed by \<^verbatim>\<open>toFixed(2)\<close>, not converted, for every amount, and never
  fails. For a finite amount below \<open>10^21\<close> that text reads back as the amount rounded
  to two decimals, so an amount with at most two decimals comes back unchanged.
\<close>

theorem convertPrice_missing_rate:
  assumes "rates st c1 = None \<or> rates st c2 = None"
  shows "convertPrice st a c1 c2 = toFixed 2 a
     \<and> (\<forall>x. a = Fin x \<and> \<bar>x\<bar> < 10 ^ 21 \<longrightarrow>
          parseFloat (convertPrice st a c1 c2) = Fin (roundTo2 x))
     \<and> (\<forall>k. a = Fin (of_int k / 100) \<and> \<bar>k\<bar> < 10 ^ 23 \<longrightarrow>
          parseFloat (convertPrice st a c1 c2) = a)"
proof -
  from assms have c: "convertPrice st a c1 c2 = toFixed 2 a"
    by (auto intro: convertPrice_fallback)
  show ?thesis
    unfolding c by (rule conjI [OF refl parseFloat_toFixed_props])
qed

theorem convertPrice_missing_rate_witness:
  "(rates initialState ''USD'' = None \<or> rates initialState ''SEK'' = None)
   \<and> convertPrice initialState (Fin (1999 / 1000)) ''USD'' ''SEK'' = ''2.00''
   \<and> parseFloat (convertPrice initialState (Fin (1999 / 1000)) ''USD'' ''SEK'') = Fin 2
   \<and> parseFloat (convertPrice initialState (Fin (of_int 1250 / 100)) ''USD'' ''SEK'')
       = Fin (of_int 1250 / 100)"
proof -
  have h: "rates initialState ''USD'' = None \<or> rates initialState ''SEK'' = None"
    by (simp add: initialState_def)
  have t: "toFixed 2 (Fin (1999 / 1000)) = ''2.00''"
    by (simp add: number_defs)
  have r: "roundTo2 (1999 / 1000) = 2" "\<bar>1999 / 1000 :: rat\<bar> < 10 ^ 21"
    "\<bar>1250 :: int\<bar> < 10 ^ 23"
    by (simp_all add: roundTo2_def)
  note w = convertPrice_missing_rate [OF h]
  from w [of "Fin (1999 / 1000)"] t
  have 1: "convertPrice initialState (Fin (1999 / 1000)) ''USD'' ''SEK'' = ''2.00''"
    by simp
  from w [of "Fin (1999 / 1000)", THEN conjunct2, THEN conjunct1, rule_format,
      of "1999 / 1000"] r
  have 2: "parseFloat (convertPrice initialState (Fin (1999 / 1000)) ''USD'' ''SEK'') = Fin 2"
    by simp
  from w [of "Fin (of_int 1250 / 100)", THEN conjunct2, THEN conjunct2, rule_format,
      of 1250] r(3)
  have 3: "parseFloat (convertPrice initialState (Fin (of_int 1250 / 100)) ''USD'' ''SEK'')
       = Fin (of_int 1250 / 100)"
    by blast
  from h 1 2 3 show ?thesis by blast
qed

text \<open>
  Claim C4, as stated: converting an amount from a currency of the rate table to the same
  currency returns the amount itself. It does not: the amount 1.234 in USD comes back as
  the text \<^verbatim>\<open>1.23\<close>. And with an infinite rate in the table the quotient of the
  rate by itself is \<open>NaN\<close>, and so is the result.
\<close>

theorem convertPrice_same_currency_counterexample:
  "rates aliceState ''USD'' = Some (Fin 1)
   \<and> convertPrice aliceState (Fin (1234 / 1000)) ''USD'' ''USD'' = ''1.23''
   \<and> parseFloat (convertPrice aliceState (Fin (1234 / 1000)) ''USD'' ''USD'')
       \<noteq> Fin (1234 / 1000)
   \<and> rates infiniteRateState ''XAU'' = Some PosInfinity
   \<and> convertPrice infiniteRateState (Fin 5) ''XAU'' ''XAU'' = ''NaN''"
  by (simp add: convertPrice_def fx_def example_defs infiniteRateState_def number_defs)

text \<open>
  Claim C4, amended: converting an amount from a currency of the rate table, with a rate
  that is not infinite, to the same currency returns the amount printed by
  \<^verbatim>\<open>toFixed(2)\<close>. For a finite amount below \<open>10^21\<close> that text reads back as the
  amount rounded to two decimals, so an amount with at most two decimals comes back
  unchanged.
\<close>

theorem convertPrice_same_currency:
  assumes "rates st c = Some r" and "r \<noteq> PosInfinity" and "r \<noteq> NegInfinity"
  shows "convertPrice st a c c = toFixed 2 a
     \<and> (\<forall>x. a = Fin x \<and> \<bar>x\<bar> < 10 ^ 21 \<longrightarrow>
          parseFloat (convertPrice st a c c) = Fin (roundTo2 x))
     \<and> (\<forall>k. a = Fin (of_int k / 100) \<and> \<bar>k\<bar> < 10 ^ 23 \<longrightarrow>
          parseFloat (convertPrice st a c c) = a)"
proof -
  from assms have c: "convertPrice st a c c = toFixed 2 a"
    by (cases r) (simp_all add: convertPrice_def fx_def js_mul_one)
  show ?thesis
    unfolding c by (rule conjI [OF refl parseFloat_toFixed_props])
qed

theorem convertPrice_same_currency_witness:
  "rates aliceState ''USD'' = Some (Fin 1)
   \<and> convertPrice aliceState (Fin (2555 / 1000)) ''USD'' ''USD'' = ''2.56''
   \<and> parseFloat (convertPrice aliceState (Fin (2555 / 1000)) ''USD'' ''USD'') = Fin (64 / 25)
   \<and> parseFloat (convertPrice aliceState (Fin (of_int 1250 / 100)) ''USD'' ''USD'')
       = Fin (of_int 1250 / 100)"
proof -
  have h: "rates aliceState ''USD'' = Some (Fin 1)" "Fin 1 \<noteq> PosInfinity" "Fin 1 \<noteq> NegInfinity"
    by (simp_all add: example_defs)
  have t: "toFixed 2 (Fin (2555 / 1000)) = ''2.56''"
    by (simp add: number_defs)
  have r: "roundTo2 (2555 / 1000) = 64 / 25" "\<bar>2555 / 1000 :: rat\<bar> < 10 ^ 21"
    "\<bar>1250 :: int\<bar> < 10 ^ 23"
    by (simp_all add: roundTo2_def)
  note w = convertPrice_same_currency [OF h]
  from w [of "Fin (2555 / 1000)"] t
  have 1: "convertPrice aliceState (Fin (2555 / 1000)) ''USD'' ''USD'' = ''2.56''"
    by simp
  from w [of "Fin (2555 / 1000)", THEN conjunct2, THEN conjunct1, rule_format,
      of "2555 / 1000"] r
  have 2: "parseFloat (convertPrice aliceState (Fin (2555 / 1000)) ''USD'' ''USD'')
             = Fin (64 / 25)"
    by simp
  from w [of "Fin (of_int 1250 / 100)", THEN conjunct2, THEN conjunct2, rule_format,
      of 1250] r(3)
  have 3: "parseFloat (convertPrice aliceState (Fin (of_int 1250 / 100)) ''USD'' ''USD'')
       = Fin (of_int 1250 / 100)"
    by blast
  from h 1 2 3 show ?thesis by blast
qed

text \<open>
  Claim C9. Where the rate table holds 0 for one of the two currencies, the guard of
  \<^verbatim>\<open>convertPrice\<close> is true and the result is the fallback \<^verbatim>\<open>price.toFixed(2)\<close>, the same
  as with the zero rates removed from the table. Where the guard is false and the
  conversion is computed, neither rate is zero, so it never divides by zero.
\<close>

theorem convertPrice_zero_rate:
  "(rates st c1 = Some (Fin 0) \<or> rates st c2 = Some (Fin 0) \<longrightarrow>
      (\<not> ToBoolean (rates st c1) \<or> \<not> ToBoolean (rates st c2))
      \<and> convertPrice st a c1 c2 = toFixed 2 a
      \<and> convertPrice st a c1 c2 =
          convertPrice (st\<lparr>rates := (\<lambda>c. if rates st c = Some (Fin 0) then None
                                           else rates st c)\<rparr>) a c1 c2)
   \<and> (ToBoolean (rates st c1) \<and> ToBoolean (rates st c2) \<longrightarrow>
        rates st c1 \<noteq> Some (Fin 0) \<and> rates st c2 \<noteq> Some (Fin 0))"
  by (auto simp: convertPrice_def)

theorem convertPrice_zero_rate_witness:
  "rates zeroRateState ''SEK'' = Some (Fin 0)
   \<and> convertPrice zeroRateState (Fin 7) ''SEK'' ''USD'' = ''7.00''
   \<and> convertPrice zeroRateState (Fin 7) ''USD'' ''SEK'' = ''7.00''
   \<and> ToBoolean (rates zeroRateState ''USD'')"
proof -
  have h: "rates zeroRateState ''SEK'' = Some (Fin 0)"
    by (simp add: zeroRateState_def)
  have t: "toFixed 2 (Fin 7) = ''7.00''"
    by (simp add: number_defs)
  have u: "ToBoolean (rates zeroRateState ''USD'')"
    by (simp add: zeroRateState_def)
  from h convertPrice_zero_rate [of zeroRateState "''SEK''" "''USD''" "Fin 7"]
  have a: "convertPrice zeroRateState (Fin 7) ''SEK'' ''USD'' = toFixed 2 (Fin 7)"
    by simp
  from h convertPrice_zero_rate [of zeroRateState "''USD''" "''SEK''" "Fin 7"]
  have b: "convertPrice zeroRateState (Fin 7) ''USD'' ''SEK'' = toFixed 2 (Fin 7)"
    by simp
  from h t u a b show ?thesis by simp
qed

section \<open>Sorting by price\<close>

text \<open>
  Claim C10. \<^verbatim>\<open>sortItemsByPrice\<close> leaves every person with the same id, the same name
  and the same multiset of items: the sort permutes the items, for every rate table and
  display currency.
\<close>

theorem sortItemsByPrice_permutation:
  "map (\<lambda>person. (person_id person, person_name person, mset (items person)))
       (people (sortItemsByPrice st personId))
   = map (\<lambda>person. (person_id person, person_name person, mset (items person)))
       (people st)"
  by (simp add: people_sortItemsByPrice mset_array_sort)

theorem sortItemsByPrice_permutation_witness:
  "map (\<lambda>person. (person_id person, person_name person, mset (items person)))
       (people (sortItemsByPrice aliceState ''alice''))
   = [(''alice'', ''Alice'', {#itemA, itemB, itemC#}), (''bob'', ''Bob'', {#itemD#})]"
  using sortItemsByPrice_permutation [of aliceState "''alice''"]
  by (simp add: example_people)

text \<open>
  Claim C6, as stated: two sorts in succession leave the items in ascending order, the
  order of the first sort. They do not: the direction is toggled by the first sort, so
  the second sort is descending. Alice's items are C, B, A after the first sort and
  A, B, C after the second, which is not ascending.
\<close>

theorem sortItemsByPrice_twice_counterexample:
  "items (people (sortItemsByPrice aliceState ''alice'') ! 0) = [itemC, itemB, itemA]
   \<and> items (people (sortItemsByPrice (sortItemsByPrice aliceState ''alice'') ''alice'') ! 0)
       = [itemA, itemB, itemC]
   \<and> \<not> ascending aliceState
         (items (people (sortItemsByPrice (sortItemsByPrice aliceState ''alice'') ''alice'') ! 0))"
proof -
  have 1: "items (people (sortItemsByPrice aliceState ''alice'') ! 0) = [itemC, itemB, itemA]"
    by (simp add: people_sortItemsByPrice example_people array_sort_def convertedPrice_alice
        js_sub_def)
  have l: "0 < length (people (sortItemsByPrice aliceState ''alice''))"
    "person_id (people (sortItemsByPrice aliceState ''alice'') ! 0) = ''alice''"
    by (simp_all add: length_people_sortItemsByPrice person_id_sortItemsByPrice example_people)
  have 2: "items (people (sortItemsByPrice (sortItemsByPrice aliceState ''alice'') ''alice'') ! 0)
       = [itemA, itemB, itemC]"
    by (simp add: items_sortItemsByPrice [OF l] 1 sortDirection_sortItemsByPrice example_people
        convertedPrice_sortItemsByPrice array_sort_def convertedPrice_alice js_sub_def)
  have 3: "\<not> ascending aliceState [itemA, itemB, itemC]"
    by (simp add: ascending_def convertedPrice_alice)
  from 1 2 3 show ?thesis by simp
qed

text \<open>
  Claim C6, amended: every sort toggles the direction, so after two sorts the direction
  is the one before the first. For a person whose items all have a converted price other
  than \<open>NaN\<close>, a sort in direction ascending leaves the items in ascending order of
  converted price and the sort after it leaves them in descending order; starting from
  direction descending it is the other way round.
\<close>

theorem sortItemsByPrice_twice:
  assumes "i < length (people st)" and "person_id (people st ! i) = personId"
    and "\<forall>item \<in> set (items (people st ! i)). convertedPrice st item \<noteq> NaN"
  shows "sortDirection (sortItemsByPrice st personId)
           = (if sortDirection st = asc then desc else asc)
     \<and> sortDirection (sortItemsByPrice (sortItemsByPrice st personId) personId)
           = sortDirection st
     \<and> (sortDirection st = asc \<longrightarrow>
          ascending st (items (people (sortItemsByPrice st personId) ! i))
          \<and> descending st
              (items (people (sortItemsByPrice (sortItemsByPrice st personId) personId) ! i)))
     \<and> (sortDirection st = desc \<longrightarrow>
          descending st (items (people (sortItemsByPrice st personId) ! i))
          \<and> ascending st
              (items (people (sortItemsByPrice (sortItemsByPrice st personId) personId) ! i)))"
proof -
  let ?st1 = "sortItemsByPrice st personId"
  have i1: "i < length (people ?st1)" "person_id (people ?st1 ! i) = personId"
    using assms by (simp_all add: length_people_sortItemsByPrice person_id_sortItemsByPrice)
  have n1: "\<forall>item \<in> set (items (people ?st1 ! i)). convertedPrice st item \<noteq> NaN"
    using assms by (simp add: items_sortItemsByPrice set_array_sort)
  have d: "sortDirection ?st1 = (if sortDirection st = asc then desc else asc)"
    "sortDirection (sortItemsByPrice ?st1 personId) = sortDirection st"
    by (cases "sortDirection st"; simp add: sortDirection_sortItemsByPrice)+
  have "ascending st (items (people ?st1 ! i))
        \<and> descending st (items (people (sortItemsByPrice ?st1 personId) ! i))"
    if "sortDirection st = asc"
    using that assms n1 i1
    by (simp add: items_sortItemsByPrice [OF i1] items_sortItemsByPrice [OF assms(1,2)]
        sortDirection_sortItemsByPrice convertedPrice_sortItemsByPrice
        ascending_sort descending_sort set_array_sort)
  moreover have "descending st (items (people ?st1 ! i))
        \<and> ascending st (items (people (sortItemsByPrice ?st1 personId) ! i))"
    if "sortDirection st = desc"
    using that assms n1 i1
    by (simp add: items_sortItemsByPrice [OF i1] items_sortItemsByPrice [OF assms(1,2)]
        sortDirection_sortItemsByPrice convertedPrice_sortItemsByPrice
        ascending_sort descending_sort set_array_sort)
  ultimately show ?thesis using d by simp
qed

theorem sortItemsByPrice_twice_witness:
  "0 < length (people aliceState) \<and> person_id (people aliceState ! 0) = ''alice''
   \<and> NaN \<notin> convertedPrice aliceState ` set (items (people aliceState ! 0))
   \<and> sortDirection aliceState = asc
   \<and> sortDirection (sortItemsByPrice aliceState ''alice'') = desc
   \<and> sortDirection (sortItemsByPrice (sortItemsByPrice aliceState ''alice'') ''alice'') = asc
   \<and> ascending aliceState (items (people (sortItemsByPrice aliceState ''alice'') ! 0))
   \<and> descending aliceState
       (items (people (sortItemsByPrice (sortItemsByPrice aliceState ''alice'') ''alice'') ! 0))"
proof -
  have h: "0 < length (people aliceState)" "person_id (people aliceState ! 0) = ''alice''"
    by (simp_all add: example_people)
  have n: "\<forall>item \<in> set (items (people aliceState ! 0)). convertedPrice aliceState item \<noteq> NaN"
    by (simp add: example_people convertedPrice_alice)
  have d: "sortDirection aliceState = asc"
    by (simp add: example_people)
  from sortItemsByPrice_twice [OF h n] h n d show ?thesis by auto
qed

section \<open>Reordering by drag and drop\<close>

text \<open>
  Claim C5. For a drop with a destination, where the source and the destination index are
  indices of the item list of every person with the given id, \<^verbatim>\<open>handleDragEnd\<close> returns
  a state that differs in the people only, and in which the person's list has the item
  of the source index at the destination index, holds the same items as before (as a
  multiset), and without that position is the former list without the source position:
  all other items keep their order. The same drop without a destination (cancelled)
  returns the state it was given.
\<close>

theorem handleDragEnd_spec:
  assumes dest: "destination_index result = Some t"
    and valid: "\<forall>person \<in> set (people st). person_id person = personId \<longrightarrow>
             0 \<le> source_index result \<and> source_index result < int (length (items person))
             \<and> 0 \<le> t \<and> t < int (length (items person))"
    and i: "i < length (people st)" "person_id (people st ! i) = personId"
  shows "\<exists>st'. handleDragEnd st result personId = Some st'
           \<and> st' = st\<lparr>people := people st'\<rparr>
           \<and> items (people st' ! i) ! nat t
               = items (people st ! i) ! nat (source_index result)
           \<and> mset (items (people st' ! i)) = mset (items (people st ! i))
           \<and> take (nat t) (items (people st' ! i)) @ drop (Suc (nat t)) (items (people st' ! i))
               = take (nat (source_index result)) (items (people st ! i))
                 @ drop (Suc (nat (source_index result))) (items (people st ! i))
           \<and> handleDragEnd st (result\<lparr>destination_index := None\<rparr>) personId = Some st"
proof -
  define f where "f = source_index result"
  define g :: "Person \<Rightarrow> Person" where "g person = (if person_id person = personId
                              then person\<lparr>items := the (reorderItems f t (items person))\<rparr>
                              else person)" for person
  have ex: "\<exists>ys. reorderItems f t (items person) = Some ys
              \<and> ys ! nat t = items person ! nat f \<and> mset ys = mset (items person)
              \<and> take (nat t) ys @ drop (Suc (nat t)) ys
                  = take (nat f) (items person) @ drop (Suc (nat f)) (items person)"
    if "person \<in> set (people st)" and "person_id person = personId" for person
    using that valid by (intro reorderItems_props) (auto simp: f_def)
  have "\<forall>person \<in> set (people st).
          (if person_id person = personId then
             map_option (\<lambda>items'. person\<lparr>items := items'\<rparr>)
               (reorderItems f t (items person))
           else Some person) = Some (g person)"
    using ex by (fastforce simp: g_def)
  then have "those (map (\<lambda>person.
                if person_id person = personId then
                  map_option (\<lambda>items'. person\<lparr>items := items'\<rparr>)
                    (reorderItems f t (items person))
                else Some person) (people st)) = Some (map g (people st))"
    by (rule those_map_Some)
  with dest have r: "handleDragEnd st result personId = Some (st\<lparr>people := map g (people st)\<rparr>)"
    unfolding handleDragEnd_def f_def by simp
  from i have m: "people st ! i \<in> set (people st)" by simp
  from ex [OF m i(2)] obtain ys where ys: "reorderItems f t (items (people st ! i)) = Some ys"
    "ys ! nat t = items (people st ! i) ! nat f" "mset ys = mset (items (people st ! i))"
    "take (nat t) ys @ drop (Suc (nat t)) ys
       = take (nat f) (items (people st ! i)) @ drop (Suc (nat f)) (items (people st ! i))"
    by blast
  from i ys(1) have it: "items (map g (people st) ! i) = ys"
    by (simp add: g_def)
  have c: "handleDragEnd st (result\<lparr>destination_index := None\<rparr>) personId = Some st"
    by (simp add: handleDragEnd_def)
  from r it ys c show ?thesis
    by (simp add: f_def)
qed

theorem handleDragEnd_spec_witness:
  "destination_index dragFirstToLast = Some 2 \<and> source_index dragFirstToLast = 0
   \<and> items (people aliceState ! 0) = [itemA, itemB, itemC]
   \<and> map_option (\<lambda>st'. items (people st' ! 0)) (handleDragEnd aliceState dragFirstToLast ''alice'')
       = Some [itemB, itemC, itemA]
   \<and> handleDragEnd aliceState (dragFirstToLast\<lparr>destination_index := None\<rparr>) ''alice''
       = Some aliceState"
proof -
  have d: "destination_index dragFirstToLast = Some 2" "source_index dragFirstToLast = 0"
    by (simp_all add: dragFirstToLast_def)
  have v: "\<forall>person \<in> set (people aliceState). person_id person = ''alice'' \<longrightarrow>
             0 \<le> source_index dragFirstToLast
             \<and> source_index dragFirstToLast < int (length (items person))
             \<and> 0 \<le> (2::int) \<and> 2 < int (length (items person))"
    by (simp add: example_people d)
  have i: "0 < length (people aliceState)" "person_id (people aliceState ! 0) = ''alice''"
    by (simp_all add: example_people)
  have e: "items (people aliceState ! 0) = [itemA, itemB, itemC]"
    by (simp add: example_people)
  from handleDragEnd_spec [OF d(1) v i] obtain st' where
    r: "handleDragEnd aliceState dragFirstToLast ''alice'' = Some st'"
    and n: "items (people st' ! 0) ! 2 = itemA"
    and m: "mset (items (people st' ! 0)) = mset [itemA, itemB, itemC]"
    and t: "take 2 (items (people st' ! 0)) @ drop 3 (items (people st' ! 0)) = [itemB, itemC]"
    and c: "handleDragEnd aliceState (dragFirstToLast\<lparr>destination_index := None\<rparr>) ''alice''
              = Some aliceState"
    unfolding e d by (auto simp: numeral_2_eq_2 numeral_3_eq_3)
  from m have "length (items (people st' ! 0)) = 3"
    using mset_eq_length by fastforce
  then obtain x y z where xyz: "items (people st' ! 0) = [x, y, z]"
    by (auto simp: numeral_3_eq_3 length_Suc_conv)
  with n t have "items (people st' ! 0) = [itemB, itemC, itemA]"
    by (simp add: numeral_2_eq_2 numeral_3_eq_3)
  with r c d e show ?thesis by simp
qed

section \<open>Saving an edited item\<close>

text \<open>
  Claim C7. With an item being edited, \<^verbatim>\<open>saveEditedItem\<close> replaces every item of the
  person that has the edited id by the edited values: name, link, parent and required
  flag as edited, the currency chosen in the form, and as price the result of
  \<^verbatim>\<open>parseFloat\<close> on the price text. Where that result is \<open>NaN\<close> the stored price is
  \<open>NaN\<close>: nothing rejects it. The list keeps its length and the editing state is cleared.
\<close>

theorem saveEditedItem_spec:
  assumes "editingItem st = Some e" and "editingItemId st = Some eid" and "eid \<noteq> []"
    and "i < length (people st)" and "person_id (people st ! i) = personId"
    and "j < length (items (people st ! i))" and "item_id (items (people st ! i) ! j) = eid"
  shows "length (items (people (saveEditedItem st personId) ! i)) = length (items (people st ! i))
     \<and> items (people (saveEditedItem st personId) ! i) ! j =
         \<lparr>item_id = edit_id e, item_name = edit_name e, price = parseFloat (edit_price e),
          currency = tempCurrency e, link = edit_link e, parentId = edit_parentId e,
          isRequired = edit_isRequired e\<rparr>
     \<and> (parseFloat (edit_price e) = NaN \<longrightarrow>
          price (items (people (saveEditedItem st personId) ! i) ! j) = NaN)
     \<and> editingItem (saveEditedItem st personId) = None
     \<and> editingItemId (saveEditedItem st personId) = None"
  using assms by (simp add: saveEditedItem_def)

theorem saveEditedItem_spec_witness:
  "parseFloat ''abc'' = NaN
   \<and> item_id (items (people editingState ! 0) ! 1) = ''B''
   \<and> items (people (saveEditedItem editingState ''alice'') ! 0) ! 1 =
       \<lparr>item_id = ''B'', item_name = ''Helmet (red)'', price = NaN, currency = ''EUR'',
        link = ''https://example.org/helmet'', parentId = Some ''A'',
        isRequired = Some False\<rparr>
   \<and> price (items (people (saveEditedItem editingState ''alice'') ! 0) ! 1) = NaN"
proof -
  have p: "parseFloat ''abc'' = NaN"
    by (simp add: number_defs)
  have h: "editingItemId editingState = Some ''B''" "''B'' \<noteq> []"
    "0 < length (people editingState)" "person_id (people editingState ! 0) = ''alice''"
    "1 < length (items (people editingState ! 0))"
    "item_id (items (people editingState ! 0) ! 1) = ''B''"
    by (simp_all add: example_editing example_people example_item_fields)
  from saveEditedItem_spec [OF example_editing(3) h] p h(6) show ?thesis
    by simp
qed

section \<open>The other people are left alone\<close>

lemma othersUnchanged_map:
  "othersUnchanged personId ps (map (\<lambda>p. if person_id p = personId then f p else p) ps)"
  by (auto simp: othersUnchanged_def intro: map_idI)

lemma othersUnchanged_enumerate:
  "othersUnchanged personId ps
     (map (\<lambda>(i, p). if person_id p = personId then f i p else p) (enumerate 0 ps))"
  unfolding othersUnchanged_def
proof (intro conjI allI impI)
  show "length (map (\<lambda>(i, p). if person_id p = personId then f i p else p) (enumerate 0 ps))
          = length ps"
    by simp
next
  fix i
  assume "i < length ps" and "person_id (ps ! i) \<noteq> personId"
  then show "map (\<lambda>(i, p). if person_id p = personId then f i p else p) (enumerate 0 ps) ! i
               = ps ! i"
    by (simp add: nth_enumerate_eq)
next
  assume "\<forall>p \<in> set ps. person_id p \<noteq> personId"
  then show "map (\<lambda>(i, p). if person_id p = personId then f i p else p) (enumerate 0 ps) = ps"
    by (intro nth_equalityI) (simp_all add: nth_enumerate_eq)
qed

lemma people_saveEditedItem:
  "people (saveEditedItem st personId) = people st
   \<or> (\<exists>f. people (saveEditedItem st personId)
             = map (\<lambda>p. if person_id p = personId then f p else p) (people st))"
  unfolding saveEditedItem_def
  by (auto split: option.splits)

lemma othersUnchangedD:
  "othersUnchanged personId ps ps' \<Longrightarrow> i < length ps \<Longrightarrow> person_id (ps ! i) \<noteq> personId \<Longrightarrow>
   ps' ! i = ps ! i"
  by (simp add: othersUnchanged_def)

lemma othersUnchanged_absentD:
  "othersUnchanged personId ps ps' \<Longrightarrow> \<forall>p \<in> set ps. person_id p \<noteq> personId \<Longrightarrow> ps' = ps"
  by (simp add: othersUnchanged_def)

lemma othersUnchanged_refl: "othersUnchanged personId ps ps"
  by (simp add: othersUnchanged_def)

lemma those_people:
  assumes "those (map (\<lambda>p. if person_id p = personId then g p else Some p) ps) = Some ps'"
  shows "othersUnchanged personId ps ps'"
  unfolding othersUnchanged_def
proof (intro conjI allI impI)
  from those_map_nth [OF assms]
  have l: "length ps' = length ps"
    and n: "\<forall>i < length ps. (if person_id (ps ! i) = personId then g (ps ! i) else Some (ps ! i))
              = Some (ps' ! i)"
    by simp_all
  show "length ps' = length ps" by (rule l)
  show "ps' ! i = ps ! i" if "i < length ps" and "person_id (ps ! i) \<noteq> personId" for i
    using n that by auto
  show "ps' = ps" if "\<forall>p \<in> set ps. person_id p \<noteq> personId"
    using l n that by (intro nth_equalityI) auto
qed

lemma handleDragEnd_Some:
  assumes "handleDragEnd st result personId = Some st'"
  shows "othersUnchanged personId (people st) (people st')"
proof (cases "destination_index result")
  case None
  with assms show ?thesis by (simp add: handleDragEnd_def othersUnchanged_refl)
next
  case (Some d)
  with assms obtain ps' where "those (map (\<lambda>person.
                          if person_id person = personId then
                            map_option (\<lambda>items'. person\<lparr>items := items'\<rparr>)
                              (reorderItems (source_index result) d (items person))
                          else Some person) (people st)) = Some ps'" and "st' = st\<lparr>people := ps'\<rparr>"
    by (auto simp: handleDragEnd_def)
  then show ?thesis by (simp add: those_people)
qed

lemma handleDragEnd_absent:
  assumes "\<forall>p \<in> set (people st). person_id p \<noteq> personId"
  shows "handleDragEnd st result personId = Some st"
proof (cases "destination_index result")
  case None
  then show ?thesis by (simp add: handleDragEnd_def)
next
  case (Some d)
  have "those (map (\<lambda>person.
                          if person_id person = personId then
                            map_option (\<lambda>items'. person\<lparr>items := items'\<rparr>)
                              (reorderItems (source_index result) d (items person))
                          else Some person) (people st)) = Some (map (\<lambda>p. p) (people st))"
    using assms by (intro those_map_Some) simp
  with Some show ?thesis by (simp add: handleDragEnd_def)
qed

text \<open>
  Claim C8. \<^verbatim>\<open>addItem\<close>, \<^verbatim>\<open>removeItem\<close>, \<^verbatim>\<open>saveEditedItem\<close>,
  \<^verbatim>\<open>sortItemsByPrice\<close> and \<^verbatim>\<open>handleDragEnd\<close>, called for the person \<open>personId\<close>,
  leave every person with another id as it was, and leave the whole list of people as it
  was where no person has that id. For \<^verbatim>\<open>handleDragEnd\<close> this is about every state it
  returns, and without a person of that id it returns the state it was given.
\<close>

theorem others_unchanged:
  "othersUnchanged personId (people st) (people (addItem st randomUUID personId))
   \<and> othersUnchanged personId (people st) (people (removeItem st personId itemId))
   \<and> othersUnchanged personId (people st) (people (saveEditedItem st personId))
   \<and> othersUnchanged personId (people st) (people (sortItemsByPrice st personId))
   \<and> (\<forall>st'. handleDragEnd st result personId = Some st' \<longrightarrow>
          othersUnchanged personId (people st) (people st'))
   \<and> ((\<forall>p \<in> set (people st). person_id p \<noteq> personId) \<longrightarrow>
          handleDragEnd st result personId = Some st)"
proof (intro conjI allI impI)
  show "othersUnchanged personId (people st) (people (addItem st randomUUID personId))"
    by (simp add: addItem_def othersUnchanged_enumerate)
  show "othersUnchanged personId (people st) (people (removeItem st personId itemId))"
    by (simp add: removeItem_def othersUnchanged_map)
  show "othersUnchanged personId (people st) (people (saveEditedItem st personId))"
    using people_saveEditedItem [of st personId]
    by (auto simp: othersUnchanged_map othersUnchanged_refl)
  show "othersUnchanged personId (people st) (people (sortItemsByPrice st personId))"
    by (simp add: sortItemsByPrice_def othersUnchanged_map)
  show "othersUnchanged personId (people st) (people st')"
    if "handleDragEnd st result personId = Some st'" for st'
    using that by (rule handleDragEnd_Some)
  show "handleDragEnd st result personId = Some st"
    if "\<forall>p \<in> set (people st). person_id p \<noteq> personId"
    using that by (rule handleDragEnd_absent)
qed

theorem others_unchanged_witness:
  "person_id (people aliceState ! 1) = ''bob''
   \<and> people (addItem aliceState (\<lambda>i. ''new'') ''alice'') ! 1 = bob
   \<and> people (removeItem aliceState ''alice'' ''A'') ! 1 = bob
   \<and> people (saveEditedItem editingState ''alice'') ! 1 = bob
   \<and> people (sortItemsByPrice aliceState ''alice'') ! 1 = bob
   \<and> map_option (\<lambda>st'. people st' ! 1) (handleDragEnd aliceState dragFirstToLast ''alice'')
       = Some bob
   \<and> ''carol'' \<notin> person_id ` set (people aliceState)
   \<and> people (removeItem aliceState ''carol'' ''A'') = [alice, bob]
   \<and> handleDragEnd aliceState dragFirstToLast ''carol'' = Some aliceState"
proof -
  have b: "1 < length (people aliceState)" "person_id (people aliceState ! 1) \<noteq> ''alice''"
    by (simp_all add: example_people)
  have b': "1 < length (people editingState)" "person_id (people editingState ! 1) \<noteq> ''alice''"
    by (simp_all add: example_editing example_people)
  have p: "people aliceState ! 1 = bob" "people editingState ! 1 = bob"
    "person_id (people aliceState ! 1) = ''bob''"
    by (simp_all add: example_editing example_people)
  have c: "\<forall>p \<in> set (people aliceState). person_id p \<noteq> ''carol''"
    by (simp add: example_people)
  note a = others_unchanged [of "''alice''" aliceState "\<lambda>i. ''new''" "''A''" dragFirstToLast]
  note e = others_unchanged [of "''alice''" editingState "\<lambda>i. ''new''" "''A''" dragFirstToLast]
  note k = others_unchanged [of "''carol''" aliceState "\<lambda>i. ''new''" "''A''" dragFirstToLast]
  obtain st' where s: "handleDragEnd aliceState dragFirstToLast ''alice'' = Some st'"
    by (simp add: handleDragEnd_def dragFirstToLast_def example_people reorderItems_def
        spliceStart_def)
  have 1: "people (addItem aliceState (\<lambda>i. ''new'') ''alice'') ! 1 = bob"
    using a [THEN conjunct1, THEN othersUnchangedD, OF b] p by simp
  have 2: "people (removeItem aliceState ''alice'' ''A'') ! 1 = bob"
    using a [THEN conjunct2, THEN conjunct1, THEN othersUnchangedD, OF b] p by simp
  have 3: "people (saveEditedItem editingState ''alice'') ! 1 = bob"
    using e [THEN conjunct2, THEN conjunct2, THEN conjunct1, THEN othersUnchangedD, OF b'] p
    by simp
  have 4: "people (sortItemsByPrice aliceState ''alice'') ! 1 = bob"
    using a [THEN conjunct2, THEN conjunct2, THEN conjunct2, THEN conjunct1,
        THEN othersUnchangedD, OF b] p
    by simp
  have 5: "people st' ! 1 = bob"
    using a [THEN conjunct2, THEN conjunct2, THEN conjunct2, THEN conjunct2, THEN conjunct1,
        rule_format, OF s, THEN othersUnchangedD, OF b] p
    by simp
  have 6: "people (removeItem aliceState ''carol'' ''A'') = [alice, bob]"
    using k [THEN conjunct2, THEN conjunct1, THEN othersUnchanged_absentD, OF c]
    by (simp add: example_people)
  have 7: "handleDragEnd aliceState dragFirstToLast ''carol'' = Some aliceState"
    using k [THEN conjunct2, THEN conjunct2, THEN conjunct2, THEN conjunct2, THEN conjunct2,
        THEN mp, OF c] .
  have 8: "''carol'' \<notin> person_id ` set (people aliceState)"
    using c by auto
  from 1 2 3 4 5 6 7 8 s p(3) show ?thesis
    by simp
qed

end
